theory Spec2Isabelle
  imports Complex_Main
begin

section \<open>Data model\<close>

text \<open>
  Python \<open>str\<close> values that the program only compares and passes on (status words, file
  paths, messages) are \<open>string\<close>. Subtitle text, which the regular expressions of
  \<open>subtitle_parser.py\<close> inspect one code point at a time, is a list of Unicode code points.
  Python \<open>float\<close> values (times in seconds) are \<open>real\<close>: the comparisons the program makes
  are modelled exactly, binary rounding is not.
\<close>

type_synonym ustr = "nat list"

datatype error = TypeError | RuntimeError string | ZeroDivisionError

text \<open>\<open>subtitle_parser.py\<close>, class \<open>Segment\<close>. The field \<open>id\<close> is \<open>seg_id\<close> here.\<close>

record segment =
  seg_id :: int
  start_time :: real
  end_time :: real
  duration :: real
  source_text :: ustr
  target_text :: ustr
  ref_audio_path :: "string option"
  output_audio_path :: "string option"
  actual_duration :: "real option"
  status :: string
  error_msg :: "string option"

text \<open>The values a manifest dictionary holds for a segment.\<close>

datatype pyval = PInt int | PFloat real | PStr string | PText ustr | PNone

type_synonym pydict = "(string \<times> pyval) list"

definition to_dict :: "segment \<Rightarrow> pydict" where
  "to_dict s =
     [(''id'', PInt (seg_id s)),
      (''start_time'', PFloat (start_time s)),
      (''end_time'', PFloat (end_time s)),
      (''duration'', PFloat (duration s)),
      (''source_text'', PText (source_text s)),
      (''target_text'', PText (target_text s)),
      (''ref_audio_path'', (case ref_audio_path s of None \<Rightarrow> PNone | Some p \<Rightarrow> PStr p)),
      (''output_audio_path'', (case output_audio_path s of None \<Rightarrow> PNone | Some p \<Rightarrow> PStr p)),
      (''actual_duration'', (case actual_duration s of None \<Rightarrow> PNone | Some d \<Rightarrow> PFloat d)),
      (''status'', PStr (status s)),
      (''error_msg'', (case error_msg s of None \<Rightarrow> PNone | Some e \<Rightarrow> PStr e))]"

text \<open>
  \<open>from_dict\<close> is \<open>cls(**data)\<close>: a key that is no field raises \<open>TypeError\<close>, so does a missing
  field without default; the five processing fields default to \<open>None\<close> and \<open>"pending"\<close>.
  The record is typed, so a value of another Python type than the field holds has no image
  here and is an error as well; an \<open>int\<close> where a \<open>float\<close> is held is the same number.
\<close>

definition field_names :: "string list" where
  "field_names = [''id'', ''start_time'', ''end_time'', ''duration'', ''source_text'',
     ''target_text'', ''ref_audio_path'', ''output_audio_path'', ''actual_duration'',
     ''status'', ''error_msg'']"

fun as_int :: "pyval option \<Rightarrow> error + int" where
  "as_int (Some (PInt i)) = Inr i"
| "as_int _ = Inl TypeError"

fun as_float :: "pyval option \<Rightarrow> error + real" where
  "as_float (Some (PFloat x)) = Inr x"
| "as_float (Some (PInt i)) = Inr (of_int i)"
| "as_float _ = Inl TypeError"

fun as_text :: "pyval option \<Rightarrow> error + ustr" where
  "as_text (Some (PText t)) = Inr t"
| "as_text _ = Inl TypeError"

fun as_opt_str :: "pyval option \<Rightarrow> error + string option" where
  "as_opt_str None = Inr None"
| "as_opt_str (Some PNone) = Inr None"
| "as_opt_str (Some (PStr p)) = Inr (Some p)"
| "as_opt_str _ = Inl TypeError"

fun as_opt_float :: "pyval option \<Rightarrow> error + real option" where
  "as_opt_float None = Inr None"
| "as_opt_float (Some PNone) = Inr None"
| "as_opt_float (Some (PFloat x)) = Inr (Some x)"
| "as_opt_float (Some (PInt i)) = Inr (Some (of_int i))"
| "as_opt_float _ = Inl TypeError"

fun as_status :: "pyval option \<Rightarrow> error + string" where
  "as_status None = Inr ''pending''"
| "as_status (Some (PStr s)) = Inr s"
| "as_status _ = Inl TypeError"

definition bind_err :: "error + 'a \<Rightarrow> ('a \<Rightarrow> error + 'b) \<Rightarrow> error + 'b" where
  "bind_err r f = (case r of Inl e \<Rightarrow> Inl e | Inr x \<Rightarrow> f x)"

definition from_dict :: "pydict \<Rightarrow> error + segment" where
  "from_dict data =
     (if list_ex (\<lambda>kv. fst kv \<notin> set field_names) data then Inl TypeError
      else
        bind_err (as_int (map_of data ''id'')) (\<lambda>i.
        bind_err (as_float (map_of data ''start_time'')) (\<lambda>st.
        bind_err (as_float (map_of data ''end_time'')) (\<lambda>en.
        bind_err (as_float (map_of data ''duration'')) (\<lambda>du.
        bind_err (as_text (map_of data ''source_text'')) (\<lambda>src.
        bind_err (as_text (map_of data ''target_text'')) (\<lambda>tgt.
        bind_err (as_opt_str (map_of data ''ref_audio_path'')) (\<lambda>rp.
        bind_err (as_opt_str (map_of data ''output_audio_path'')) (\<lambda>op.
        bind_err (as_opt_float (map_of data ''actual_duration'')) (\<lambda>ad.
        bind_err (as_status (map_of data ''status'')) (\<lambda>sts.
        bind_err (as_opt_str (map_of data ''error_msg'')) (\<lambda>em.
          Inr \<lparr>seg_id = i, start_time = st, end_time = en, duration = du,
               source_text = src, target_text = tgt, ref_audio_path = rp,
               output_audio_path = op, actual_duration = ad, status = sts,
               error_msg = em\<rparr>))))))))))))"

section \<open>Subtitle extraction\<close>

subsection \<open>Text helpers\<close>

text \<open>
  \<open>str.strip()\<close> removes the white space of Unicode at both ends; \<open>is_space\<close> lists the code
  points for which \<open>str.isspace()\<close> holds.
\<close>

definition is_space :: "nat \<Rightarrow> bool" where
  "is_space c =
     (c \<in> set [9, 10, 11, 12, 13, 28, 29, 30, 31, 32, 133, 160, 5760] \<or>
      (8192 \<le> c \<and> c \<le> 8202) \<or> c \<in> set [8232, 8233, 8239, 8287, 12288])"

definition strip :: "ustr \<Rightarrow> ustr" where
  "strip s = rev (dropWhile is_space (rev (dropWhile is_space s)))"

text \<open>\<open>text.split(sep)\<close> for a separator of one character, and \<open>' '.join(parts)\<close>.\<close>

fun split_on :: "nat \<Rightarrow> ustr \<Rightarrow> ustr list" where
  "split_on sep [] = [[]]"
| "split_on sep (c # cs) =
     (if c = sep then [] # split_on sep cs
      else (case split_on sep cs of [] \<Rightarrow> [[c]] | p # ps \<Rightarrow> (c # p) # ps))"

fun join_space :: "ustr list \<Rightarrow> ustr" where
  "join_space [] = []"
| "join_space [p] = p"
| "join_space (p # q # ps) = p @ [32] @ join_space (q # ps)"

text \<open>\<open>chinese_pattern\<close> is the range of code points 4E00 to 9FFF; \<open>is_chinese\<close> is its \<open>search\<close>.\<close>

definition is_chinese :: "ustr \<Rightarrow> bool" where
  "is_chinese s = list_ex (\<lambda>c. 19968 \<le> c \<and> c \<le> 40959) s"

text \<open>
  \<open>bracket_pattern.sub("", text)\<close>. The pattern has three alternatives: one of the five
  opening brackets (\<open>is_opener\<close>: round, square, curly, full-width round, lenticular), then
  \<open>.*?\<close>, then one of the five closing brackets (\<open>is_closer\<close>), of any kind; a music note
  (code point 9834), then \<open>.*?\<close>, then a music note; a run of music notes. The dot does not
  match a line feed, so \<open>find_close\<close> gives up at one. The scan goes on behind a match, and
  one character further where nothing matches.
\<close>

definition is_opener :: "nat \<Rightarrow> bool" where
  "is_opener c = (c \<in> set [40, 91, 123, 65288, 12304])"

definition is_closer :: "nat \<Rightarrow> bool" where
  "is_closer c = (c \<in> set [41, 93, 125, 65289, 12305])"

fun find_close :: "(nat \<Rightarrow> bool) \<Rightarrow> ustr \<Rightarrow> nat option" where
  "find_close P [] = None"
| "find_close P (c # cs) =
     (if P c then Some 0 else if c = 10 then None else map_option Suc (find_close P cs))"

function remove_brackets :: "ustr \<Rightarrow> ustr" where
  "remove_brackets [] = []"
| "remove_brackets (c # cs) =
     (if is_opener c then
        (case find_close is_closer cs of
           Some k \<Rightarrow> remove_brackets (drop (Suc k) cs)
         | None \<Rightarrow> c # remove_brackets cs)
      else if c = 9834 then
        (case find_close (\<lambda>x. x = 9834) cs of
           Some k \<Rightarrow> remove_brackets (drop (Suc k) cs)
         | None \<Rightarrow> remove_brackets (dropWhile (\<lambda>x. x = 9834) cs))
      else c # remove_brackets cs)"
  by pat_completeness auto
termination
  by (relation "measure length") (auto simp: less_Suc_eq_le length_dropWhile_le)

definition clean_text :: "ustr \<Rightarrow> ustr" where
  "clean_text text = (if text = [] then [] else strip (remove_brackets text))"

subsection \<open>Numerals\<close>

text \<open>
  \<open>\d\<close> matches the decimal digits of Unicode (category Nd), and \<open>int\<close> reads them: they come
  in runs of ten, \<open>nd_zeros\<close> lists the zero of each run (Unicode 14).
\<close>

definition nd_zeros :: "nat list" where
  "nd_zeros =
     [48, 1632, 1776, 1984, 2406, 2534, 2662, 2790, 2918, 3046, 3174, 3302, 3430, 3558,
      3664, 3792, 3872, 4160, 4240, 6112, 6160, 6470, 6608, 6784, 6800, 6992, 7088, 7232,
      7248, 42528, 43216, 43264, 43472, 43504, 43600, 44016, 65296, 66720, 68912, 69734,
      69872, 69942, 70096, 70384, 70736, 70864, 71248, 71360, 71472, 71904, 72016, 72784,
      73040, 73120, 92768, 92864, 93008, 120782, 120792, 120802, 120812, 120822, 123200,
      123632, 125264, 130032]"

definition digit_value :: "nat \<Rightarrow> nat option" where
  "digit_value c =
     (case find (\<lambda>z. z \<le> c \<and> c < z + 10) nd_zeros of None \<Rightarrow> None | Some z \<Rightarrow> Some (c - z))"

definition is_digit :: "nat \<Rightarrow> bool" where
  "is_digit c = (digit_value c \<noteq> None)"

text \<open>
  \<open>int(c)\<close> and \<open>int(s)\<close>, which the program applies to what \<open>\d\<close> and \<open>\d+\<close> matched only:
  to decimal digits, and to non-empty strings of them.
\<close>

definition digit_of :: "nat \<Rightarrow> nat" where
  "digit_of c = (case digit_value c of None \<Rightarrow> 0 | Some v \<Rightarrow> v)"

definition int_of_digits :: "ustr \<Rightarrow> nat" where
  "int_of_digits s = foldl (\<lambda>acc c. 10 * acc + digit_of c) 0 s"

text \<open>The ten digit words, zero to nine, and \<open>_digits_to_cn\<close>.\<close>

definition cn_digits :: "nat list" where
  "cn_digits = [38646, 19968, 20108, 19977, 22235, 20116, 20845, 19971, 20843, 20061]"

definition digits_to_cn :: "ustr \<Rightarrow> ustr" where
  "digits_to_cn s = map (\<lambda>c. cn_digits ! digit_of c) s"

text \<open>
  \<open>_int_to_cn\<close>. The code points 20159, 19975, 21315, 30334 and 21313 are the words for
  \<open>10^8\<close>, \<open>10^4\<close>, 1000, 100 and 10, and 38646 is the word for zero. \<open>low_part\<close> is the
  blocks of the thousands, the hundreds, the tens and the units, on the result so far.
  The argument is what \<open>int\<close> read from digits, so it is not negative.
\<close>

definition low_part :: "ustr \<Rightarrow> nat \<Rightarrow> ustr" where
  "low_part result0 n0 =
     (let result1 = (if n0 \<ge> 1000
                     then result0 @ [cn_digits ! (n0 div 1000), 21315] @
                          (if 0 < n0 mod 1000 \<and> n0 mod 1000 < 100 then [38646] else [])
                     else result0);
          n1 = (if n0 \<ge> 1000 then n0 mod 1000 else n0);
          result2 = (if n1 \<ge> 100
                     then result1 @ [cn_digits ! (n1 div 100), 30334] @
                          (if 0 < n1 mod 100 \<and> n1 mod 100 < 10 then [38646] else [])
                     else result1);
          n2 = (if n1 \<ge> 100 then n1 mod 100 else n1);
          result3 = (if n2 \<ge> 10
                     then (if n2 div 10 = 1 \<and> result2 = [] then result2 @ [21313]
                           else result2 @ [cn_digits ! (n2 div 10), 21313])
                     else result2);
          n3 = (if n2 \<ge> 10 then n2 mod 10 else n2)
      in if n3 > 0 then result3 @ [cn_digits ! n3] else result3)"

function int_to_cn :: "nat \<Rightarrow> ustr" where
  "int_to_cn n =
     (if n = 0 then [38646]
      else
        let result1 = (if n \<ge> 100000000
                       then int_to_cn (n div 100000000) @ [20159] @
                            (if 0 < n mod 100000000 \<and> n mod 100000000 < 10000000
                             then [38646] else [])
                       else []);
            n1 = (if n \<ge> 100000000 then n mod 100000000 else n);
            result2 = (if n1 \<ge> 10000
                       then result1 @ int_to_cn (n1 div 10000) @ [19975] @
                            (if 0 < n1 mod 10000 \<and> n1 mod 10000 < 1000 then [38646] else [])
                       else result1);
            n2 = (if n1 \<ge> 10000 then n1 mod 10000 else n1)
        in low_part result2 n2)"
  by pat_completeness auto
termination
proof (relation "measure id")
  show "wf (measure id)" by simp
next
  fix n :: nat
  assume "n \<noteq> 0" "100000000 \<le> n"
  then show "(n div 100000000, n) \<in> measure id" by simp
next
  fix n x xa :: nat
  assume "n \<noteq> 0" "xa = (if 100000000 \<le> n then n mod 100000000 else n)" "10000 \<le> xa"
  then have "xa \<le> n" "0 < xa" by (auto split: if_splits)
  then have "xa div 10000 < n" by (meson div_less_dividend less_le_trans one_less_numeral_iff semiring_norm(76) order_less_le_trans)
  then show "(xa div 10000, n) \<in> measure id" by simp
qed

declare int_to_cn.simps [simp del]

text \<open>\<open>_num_to_cn\<close>: with a decimal point (46) the digits behind it are read one by one.\<close>

definition num_to_cn :: "ustr \<Rightarrow> ustr" where
  "num_to_cn s =
     (if 46 \<in> set s
      then int_to_cn (int_of_digits (takeWhile (\<lambda>c. c \<noteq> 46) s)) @ [28857] @
           digits_to_cn (tl (dropWhile (\<lambda>c. c \<noteq> 46) s))
      else int_to_cn (int_of_digits s))"

text \<open>
  The four substitutions of \<open>_convert_numbers\<close>. \<open>number_at\<close> is the longest match of
  \<open>\d+\.?\d*\<close> at the start of a string, empty when it does not start with a digit. Each
  substitution scans from the left, replaces a match and goes on behind it, and keeps a
  character at which its pattern does not match.
\<close>

definition number_at :: "ustr \<Rightarrow> ustr" where
  "number_at s =
     (let a = takeWhile is_digit s; r = dropWhile is_digit s in
      if a = [] then []
      else (case r of
              [] \<Rightarrow> a
            | c # r' \<Rightarrow> if c = 46 then a @ [46] @ takeWhile is_digit r' else a))"

fun sub_percent :: "ustr \<Rightarrow> ustr" where
  "sub_percent [] = []"
| "sub_percent (c # cs) =
     (let g = number_at (c # cs) in
      if g \<noteq> [] \<and> take 1 (drop (length g) (c # cs)) = [37]
      then [30334, 20998, 20043] @ num_to_cn g @ sub_percent (drop (length g + 1) (c # cs))
      else c # sub_percent cs)"

fun sub_year :: "ustr \<Rightarrow> ustr" where
  "sub_year [] = []"
| "sub_year (c # cs) =
     (if length (takeWhile is_digit (take 4 (c # cs))) = 4 \<and> take 1 (drop 4 (c # cs)) = [24180]
      then digits_to_cn (take 4 (c # cs)) @ [24180] @ sub_year (drop 5 (c # cs))
      else c # sub_year cs)"

fun sub_long :: "ustr \<Rightarrow> ustr" where
  "sub_long [] = []"
| "sub_long (c # cs) =
     (let g = takeWhile is_digit (c # cs) in
      if 5 \<le> length g
      then digits_to_cn g @ sub_long (drop (length g) (c # cs))
      else c # sub_long cs)"

fun sub_number :: "ustr \<Rightarrow> ustr" where
  "sub_number [] = []"
| "sub_number (c # cs) =
     (let g = number_at (c # cs) in
      if g \<noteq> []
      then num_to_cn g @ sub_number (drop (length g) (c # cs))
      else c # sub_number cs)"

definition convert_numbers :: "ustr \<Rightarrow> ustr" where
  "convert_numbers text = sub_number (sub_long (sub_year (sub_percent text)))"

text \<open>
  The place-value reading in the specification's words, digit by digit. A group is four
  decimal digits. In a group every digit that is not zero is read with its unit; a run of
  zeros between two read digits of the group is read as one zero; zeros at the end of a
  group are not read; ten is read without its digit only when nothing at all is read
  before it. The groups are joined by the words for \<open>10^4\<close> and \<open>10^8\<close>, and a group
  that follows them with zeros at its front is announced by one zero.
\<close>

definition read_group :: "bool \<Rightarrow> nat \<Rightarrow> ustr" where
  "read_group lead g =
     (let q = g div 1000; b = g div 100 mod 10; s = g div 10 mod 10; u = g mod 10 in
      (if q \<noteq> 0 then [cn_digits ! q, 21315] else []) @
      (if b \<noteq> 0 then [cn_digits ! b, 30334]
       else if q \<noteq> 0 \<and> (s \<noteq> 0 \<or> u \<noteq> 0) then [38646] else []) @
      (if s \<noteq> 0
       then (if s = 1 \<and> lead \<and> q = 0 \<and> b = 0 then [21313] else [cn_digits ! s, 21313])
       else if b \<noteq> 0 \<and> u \<noteq> 0 then [38646] else []) @
      (if u \<noteq> 0 then [cn_digits ! u] else []))"

function place_value_reading :: "bool \<Rightarrow> nat \<Rightarrow> ustr" where
  "place_value_reading lead n =
     (if n < 10000 then read_group lead n
      else if n < 100000000 then
        place_value_reading lead (n div 10000) @ [19975] @
        (if n mod 10000 = 0 then []
         else (if n mod 10000 < 1000 then [38646] else []) @ read_group False (n mod 10000))
      else
        place_value_reading lead (n div 100000000) @ [20159] @
        (if n mod 100000000 = 0 then []
         else (if n mod 100000000 < 10000000 then [38646] else []) @
              place_value_reading False (n mod 100000000)))"
  by pat_completeness auto
termination
  by (relation "measure snd") auto

declare place_value_reading.simps [simp del]

definition cn_reference :: "nat \<Rightarrow> ustr" where
  "cn_reference n = (if n = 0 then [38646] else place_value_reading True n)"

text \<open>The words a place-value reading is made of.\<close>

definition cn_words :: "nat list" where
  "cn_words = cn_digits @ [21313, 30334, 21315, 19975, 20159]"

subsection \<open>The extraction loop\<close>

text \<open>
  A cue as the subtitle library delivers it: start and end in milliseconds and the plain
  text, in which a line break inside the cue is a line feed. \<open>load\<close> works on the cues of
  the file after \<open>subs.sort()\<close>.
\<close>

record cue =
  cue_start :: int
  cue_end :: int
  plaintext :: ustr

text \<open>
  What one iteration of the \<open>while\<close> loop of \<open>SubtitleParser.load\<close> decides at index \<open>i\<close>:
  to stop (\<open>break\<close>), to go on at a later index without a segment (\<open>continue\<close>), or to
  accept a segment with a source text and a target text and go on at a later index.
\<close>

datatype step = Break | Skip nat | Accept nat ustr ustr

definition pair_with_next :: "cue list \<Rightarrow> nat \<Rightarrow> real \<Rightarrow> ustr \<Rightarrow> bool \<Rightarrow> (ustr \<times> ustr) option" where
  "pair_with_next subs i start cleaned_text is_cn =
     (if i + 1 < length subs then
        let next_line = subs ! (i + 1);
            next_start = real_of_int (cue_start next_line) / 1000;
            next_text = strip (plaintext next_line) in
        if \<bar>next_start - start\<bar> < 0.01 \<and> next_text \<noteq> [] then
          let next_cleaned = clean_text next_text;
              next_is_chinese = is_chinese next_cleaned in
          if \<not> is_cn \<and> next_is_chinese then Some (cleaned_text, next_cleaned)
          else if is_cn \<and> \<not> next_is_chinese then Some (next_cleaned, cleaned_text)
          else if is_cn \<and> next_is_chinese then Some ([], cleaned_text)
          else None
        else None
      else None)"

definition load_step :: "cue list \<Rightarrow> real \<Rightarrow> real option \<Rightarrow> nat \<Rightarrow> step" where
  "load_step subs start_time_arg end_time_arg i =
     (let line = subs ! i;
          start = real_of_int (cue_start line) / 1000 in
      if start < start_time_arg then Skip (i + 1)
      else if (case end_time_arg of None \<Rightarrow> False | Some e \<Rightarrow> start \<ge> e) then Break
      else
        let text = strip (plaintext line) in
        if text = [] then Skip (i + 1)
        else if 10 \<in> set text then
          (let parts = filter (\<lambda>p. p \<noteq> []) (map strip (split_on 10 text));
               cleaned = filter (\<lambda>p. p \<noteq> []) (map clean_text parts);
               target = join_space (filter is_chinese cleaned);
               source = join_space (filter (\<lambda>p. \<not> is_chinese p) cleaned)
           in if strip target = [] then Skip (i + 1) else Accept (i + 1) source target)
        else
          (let cleaned_text = clean_text text;
               is_cn = is_chinese cleaned_text in
           case pair_with_next subs i start cleaned_text is_cn of
             Some (source, target) \<Rightarrow>
               if strip target = [] then Skip (i + 2) else Accept (i + 2) source target
           | None \<Rightarrow>
               if is_cn
               then (if strip cleaned_text = [] then Skip (i + 1)
                     else Accept (i + 1) [] cleaned_text)
               else Skip (i + 1)))"

definition make_segment :: "int \<Rightarrow> cue \<Rightarrow> ustr \<Rightarrow> ustr \<Rightarrow> segment" where
  "make_segment segment_id line source target =
     \<lparr>seg_id = segment_id,
      start_time = real_of_int (cue_start line) / 1000,
      end_time = real_of_int (cue_end line) / 1000,
      duration = real_of_int (cue_end line) / 1000 - real_of_int (cue_start line) / 1000,
      source_text = source, target_text = convert_numbers target,
      ref_audio_path = None, output_audio_path = None, actual_duration = None,
      status = ''pending'', error_msg = None\<rparr>"

text \<open>\<open>max_segments and len(segments) >= max_segments\<close>: \<open>None\<close> and 0 set no cap.\<close>

definition cap_reached :: "int option \<Rightarrow> nat \<Rightarrow> bool" where
  "cap_reached max_segments n =
     (case max_segments of None \<Rightarrow> False | Some m \<Rightarrow> m \<noteq> 0 \<and> int n \<ge> m)"

lemma load_step_Skip: "load_step subs st en i = Skip i' \<Longrightarrow> i < i'"
  by (auto simp: load_step_def Let_def split: if_splits option.splits prod.splits)

lemma load_step_Accept: "load_step subs st en i = Accept i' src tgt \<Longrightarrow> i < i'"
  by (auto simp: load_step_def Let_def split: if_splits option.splits prod.splits)

function load_loop ::
  "cue list \<Rightarrow> real \<Rightarrow> real option \<Rightarrow> int option \<Rightarrow> nat \<Rightarrow> segment list \<Rightarrow> int \<Rightarrow> segment list" where
  "load_loop subs start_time_arg end_time_arg max_segments i segs segment_id =
     (if i < length subs then
        (case load_step subs start_time_arg end_time_arg i of
           Break \<Rightarrow> segs
         | Skip i' \<Rightarrow> load_loop subs start_time_arg end_time_arg max_segments i' segs segment_id
         | Accept i' source target \<Rightarrow>
             let segs' = segs @ [make_segment segment_id (subs ! i) source target] in
             if cap_reached max_segments (length segs') then segs'
             else load_loop subs start_time_arg end_time_arg max_segments i' segs' (segment_id + 1))
      else segs)"
  by pat_completeness auto
termination
  by (relation "measure (\<lambda>(subs, st, en, mx, i, segs, sid). length subs - i)")
     (auto dest: load_step_Skip load_step_Accept)
declare load_loop.simps [simp del]

definition load :: "cue list \<Rightarrow> real \<Rightarrow> real option \<Rightarrow> int option \<Rightarrow> segment list" where
  "load subs start_time_arg end_time_arg max_segments =
     load_loop subs start_time_arg end_time_arg max_segments 0 [] 1"

definition get_video_clip_times :: "segment list \<Rightarrow> real \<Rightarrow> real \<times> real" where
  "get_video_clip_times segs padding =
     (if segs = [] then (0, 60)
      else (max 0 (start_time (hd segs) - padding), end_time (last segs) + padding))"

text \<open>What holds of every segment that extraction returns.\<close>

definition extracted :: "cue list \<Rightarrow> real \<Rightarrow> real option \<Rightarrow> segment \<Rightarrow> bool" where
  "extracted subs st en seg =
     (target_text seg \<noteq> [] \<and>
      list_ex (\<lambda>line. start_time seg = real_of_int (cue_start line) / 1000 \<and>
                     end_time seg = real_of_int (cue_end line) / 1000) subs \<and>
      duration seg = end_time seg - start_time seg \<and>
      st \<le> start_time seg \<and> (case en of None \<Rightarrow> True | Some e \<Rightarrow> start_time seg < e) \<and>
      ref_audio_path seg = None \<and> output_audio_path seg = None \<and>
      actual_duration seg = None \<and> status seg = ''pending'' \<and> error_msg seg = None)"

section \<open>Configuration, manifest and the file system\<close>

text \<open>\<open>config.py\<close>: the tunable constants the pipeline reads, with their defaults.\<close>

record config =
  sample_rate :: nat
  speed_no_adjust_threshold :: real
  speed_min_atempo :: real
  speed_max_atempo :: real
  demo_max_segments :: int
  demo_start_time :: real
  demo_end_time :: real
  gap_merge_threshold :: real
  gap_fade_duration :: real

definition default_config :: config where
  "default_config =
     \<lparr>sample_rate = 22050, speed_no_adjust_threshold = 0.1, speed_min_atempo = 0.8,
      speed_max_atempo = 1.25, demo_max_segments = 5, demo_start_time = 60,
      demo_end_time = 120, gap_merge_threshold = 0.3, gap_fade_duration = 0.15\<rparr>"

text \<open>
  \<open>pipeline.py\<close>, class \<open>ProjectManifest\<close>. An entry of \<open>stages_status\<close> is a status word,
  or in the old format a dictionary, of which only its \<open>"status"\<close> entry is read.
  The fields \<open>status\<close> and \<open>error_msg\<close> of the manifest are \<open>m_status\<close> and \<open>m_error_msg\<close>.
\<close>

datatype stage_val = Flag string | Legacy "string option"

record manifest =
  project_name :: string
  video_source :: string
  subtitle_source :: string
  m_status :: string
  clipped_video :: "string option"
  vocal_track :: "string option"
  bgm_track :: "string option"
  dubbed_track :: "string option"
  final_video :: "string option"
  stages_status :: "string \<rightharpoonup> stage_val"
  clip_start :: real
  clip_end :: real
  segments :: "segment list"
  m_error_msg :: "string option"

text \<open>
  The file system is the set of paths that exist. The manifest file is a component of its
  own (\<open>saved\<close>, what \<open>save_manifest\<close> wrote last): its path is taken to differ from every
  path the manifest names. Deleting an existing file and writing the manifest succeed.
\<close>

record world =
  files :: "string set"
  manifest :: manifest
  saved :: "manifest option"

text \<open>Python's \<open>bool(p)\<close> of an optional string, and \<open>bool(p and Path(p).exists())\<close>.\<close>

definition truthy :: "string option \<Rightarrow> bool" where
  "truthy p = (case p of None \<Rightarrow> False | Some s \<Rightarrow> s \<noteq> [])"

definition path_exists :: "string set \<Rightarrow> string option \<Rightarrow> bool" where
  "path_exists fs p = (case p of None \<Rightarrow> False | Some s \<Rightarrow> s \<noteq> [] \<and> s \<in> fs)"

definition save_manifest :: "world \<Rightarrow> world" where
  "save_manifest w = w\<lparr>saved := Some (manifest w)\<rparr>"

subsection \<open>Stage completion\<close>

text \<open>\<open>Pipeline._is_stage_completed\<close>; \<open>stage_flag\<close> is its first three lines.\<close>

definition stage_flag :: "manifest \<Rightarrow> string \<Rightarrow> string option" where
  "stage_flag m stage_name =
     (case stages_status m stage_name of
        None \<Rightarrow> None
      | Some (Flag s) \<Rightarrow> Some s
      | Some (Legacy d) \<Rightarrow> Some (case d of None \<Rightarrow> ''pending'' | Some s \<Rightarrow> s))"

definition is_stage_completed :: "string set \<Rightarrow> manifest \<Rightarrow> string \<Rightarrow> bool" where
  "is_stage_completed fs m stage_name =
     (if stage_flag m stage_name \<noteq> Some ''completed'' then False
      else if stage_name = ''clip'' then path_exists fs (clipped_video m)
      else if stage_name = ''extract'' then path_exists fs (vocal_track m)
      else if stage_name = ''merge'' then path_exists fs (final_video m)
      else True)"

subsection \<open>Invalidation on a change of the time window\<close>

text \<open>
  The paths of \<open>config\<close> that \<open>_invalidate_on_range_change\<close> touches: the extracted full audio
  of the project, and the three glob patterns \<open>seg_*.wav\<close>, \<open>ref_*.wav\<close> (segments directory)
  and \<open>dub_*.wav\<close> (output directory), each as the predicate of the paths it matches.
\<close>

record layout =
  full_audio :: string
  is_seg_wav :: "string \<Rightarrow> bool"
  is_ref_wav :: "string \<Rightarrow> bool"
  is_dub_wav :: "string \<Rightarrow> bool"

definition unlink_if_exists :: "string option \<Rightarrow> string set \<Rightarrow> string set" where
  "unlink_if_exists p fs =
     (case p of None \<Rightarrow> fs | Some s \<Rightarrow> if s \<noteq> [] \<and> s \<in> fs then fs - {s} else fs)"

definition reset_segment :: "segment \<Rightarrow> segment" where
  "reset_segment seg =
     (let seg1 = seg\<lparr>ref_audio_path := None, output_audio_path := None,
                     actual_duration := None\<rparr>
      in if status seg1 \<noteq> ''pending''
         then seg1\<lparr>status := ''pending'', error_msg := None\<rparr>
         else seg1)"

text \<open>
  The external collaborators, as the pipeline sees them: each call returns its result or
  the message of the exception it raises (\<open>Inl\<close>, or \<open>Some\<close> for a call without result).
  \<open>get_duration\<close> probes the duration of a media file, \<open>process_segment\<close> cuts the reference
  clip of a segment and returns its path, \<open>tts_generate\<close> synthesizes a clip,
  \<open>post_process_audio\<close> changes speed and loudness. \<open>ref_file\<close>, \<open>dub_file\<close> and \<open>final_file\<close>
  are the paths \<open>ref_NNNN.wav\<close>, \<open>dub_NNNN.wav\<close> and \<open>dub_NNNN_final.wav\<close> of a segment id.
\<close>

record tools =
  ref_file :: "int \<Rightarrow> string"
  dub_file :: "int \<Rightarrow> string"
  final_file :: "int \<Rightarrow> string"
  get_duration :: "string \<Rightarrow> string + real"
  process_segment :: "string option \<Rightarrow> segment \<Rightarrow> real \<Rightarrow> string + string"
  tts_generate :: "ustr \<Rightarrow> string \<Rightarrow> string \<Rightarrow> string option"
  post_process_audio :: "string \<Rightarrow> string \<Rightarrow> real option \<Rightarrow> string option"

definition invalidate_on_range_change :: "layout \<Rightarrow> tools \<Rightarrow> world \<Rightarrow> world" where
  "invalidate_on_range_change lay env w =
     (let m = manifest w in
      case clipped_video m of
        None \<Rightarrow> w
      | Some clip \<Rightarrow>
          if \<not> (clip \<noteq> [] \<and> clip \<in> files w) then w
          else
            let expected_duration = clip_end m - clip_start m in
            (case get_duration env clip of
              Inl e \<Rightarrow> w
            | Inr actual \<Rightarrow>
                if \<bar>actual - expected_duration\<bar> \<le> 2 then w
                else
                  let fs1 = unlink_if_exists (bgm_track m)
                              (unlink_if_exists (vocal_track m)
                                (unlink_if_exists (clipped_video m) (files w)));
                      fs2 = fs1 - {full_audio lay};
                      m' = m\<lparr>clipped_video := None, vocal_track := None, bgm_track := None,
                             stages_status := (stages_status m)
                               (''clip'' \<mapsto> Flag ''pending'', ''extract'' \<mapsto> Flag ''pending'',
                                ''process'' \<mapsto> Flag ''pending'', ''generate'' \<mapsto> Flag ''pending''),
                             segments := map reset_segment (segments m)\<rparr>;
                      fs3 = Set.filter (\<lambda>p. \<not> is_seg_wav lay p \<and> \<not> is_ref_wav lay p) fs2;
                      fs4 = Set.filter (\<lambda>p. \<not> is_dub_wav lay p) fs3
                  in save_manifest (w\<lparr>files := fs4, manifest := m'\<rparr>)))"

subsection \<open>The parse stage\<close>

text \<open>
  \<open>_stage_parse_subtitles\<close>. \<open>old_segments\<close> is the dictionary of the previous segments of
  status \<open>success\<close> by \<open>(start_time, target_text)\<close>, a later segment replacing an earlier one
  of the same key; \<open>restore_state\<close> is the body of the loop that recovers the state of a new
  segment. \<open>subs\<close> is the cues of the subtitle file.
\<close>

definition old_segments :: "segment list \<Rightarrow> (real \<times> ustr) \<rightharpoonup> segment" where
  "old_segments segs =
     map_of (rev (map (\<lambda>s. ((start_time s, target_text s), s))
                    (filter (\<lambda>s. status s = ''success'') segs)))"

definition restore_state :: "((real \<times> ustr) \<rightharpoonup> segment) \<Rightarrow> segment \<Rightarrow> segment" where
  "restore_state olds ns =
     (case olds (start_time ns, target_text ns) of
        None \<Rightarrow> ns
      | Some os \<Rightarrow> ns\<lparr>ref_audio_path := ref_audio_path os,
                      output_audio_path := output_audio_path os,
                      actual_duration := actual_duration os,
                      status := status os\<rparr>)"

definition parse_window ::
  "tools \<Rightarrow> config \<Rightarrow> bool \<Rightarrow> cue list \<Rightarrow> manifest \<Rightarrow> error + segment list \<times> real \<times> real" where
  "parse_window env cfg demo_mode subs m =
     (if demo_mode then
        let new_segments = load subs (demo_start_time cfg) (Some (demo_end_time cfg))
                             (Some (demo_max_segments cfg))
        in Inr (new_segments, get_video_clip_times new_segments 2)
      else
        let new_segments = load subs 0 None None in
        case get_duration env (video_source m) of
          Inl e \<Rightarrow> Inl (RuntimeError e)
        | Inr full_duration \<Rightarrow> Inr (new_segments, 0, full_duration))"

definition stage_parse_subtitles ::
  "tools \<Rightarrow> config \<Rightarrow> bool \<Rightarrow> cue list \<Rightarrow> world \<Rightarrow> error + world" where
  "stage_parse_subtitles env cfg demo_mode subs w =
     (let m = manifest w;
          olds = old_segments (segments m) in
      case parse_window env cfg demo_mode subs m of
        Inl e \<Rightarrow> Inl e
      | Inr (new_segments, window_start, window_end) \<Rightarrow>
          if new_segments = [] then Inl (RuntimeError ''no valid subtitle segment found'')
          else Inr (save_manifest
                 (w\<lparr>manifest := m\<lparr>segments := map (restore_state olds) new_segments,
                       clip_start := window_start, clip_end := window_end,
                       stages_status := (stages_status m)(''parse'' \<mapsto> Flag ''completed'')\<rparr>\<rparr>)))"

section \<open>The prepare-segments and synthesize stages\<close>

subsection \<open>Speed adjustment\<close>

text \<open>
  \<open>_stage_generate_dubbing\<close>, the inner loop that looks for the next segment whose status is
  not \<open>error\<close>: \<open>while next_idx < len(segments) and segments[next_idx].status == "error"\<close>.
\<close>

function skip_errors :: "segment list \<Rightarrow> nat \<Rightarrow> nat" where
  "skip_errors segs next_idx =
     (if next_idx < length segs \<and> status (segs ! next_idx) = ''error''
      then skip_errors segs (next_idx + 1) else next_idx)"
  by pat_completeness auto
termination
  by (relation "measure (\<lambda>(segs, next_idx). length segs - next_idx)") auto

declare skip_errors.simps [simp del]

text \<open>
  The speed passed to \<open>post_process_audio\<close> for segment \<open>i\<close> whose synthesized clip lasts
  \<open>actual\<close> seconds: \<open>None\<close> inside the tolerance band, else the multiplier. A division by
  zero raises, and the caller's \<open>except\<close> then keeps the unprocessed clip.
\<close>

definition speed_adjustment :: "config \<Rightarrow> segment list \<Rightarrow> nat \<Rightarrow> real \<Rightarrow> error + real option" where
  "speed_adjustment cfg segs i actual =
     (let seg = segs ! i; target_duration = duration seg in
      if target_duration = 0 then Inl ZeroDivisionError
      else
        let ratio = actual / target_duration;
            threshold = speed_no_adjust_threshold cfg in
        if ratio < 1 - threshold \<or> ratio > 1 + threshold then
          let speed = max (speed_min_atempo cfg) (min (speed_max_atempo cfg) ratio) in
          if speed = 0 then Inl ZeroDivisionError
          else
            let adjusted_duration = actual / speed;
                next_idx = skip_errors segs (i + 1) in
            if next_idx < length segs then
              let max_duration = start_time (segs ! next_idx) - start_time seg - 0.05 in
              if adjusted_duration > max_duration \<and> max_duration > 0
              then Inr (Some (min (actual / max_duration) 2))
              else Inr (Some speed)
            else Inr (Some speed)
        else Inr None)"

subsection \<open>The stage loops\<close>

text \<open>
  Both loops are \<open>for i, seg in enumerate(self.manifest.segments)\<close>: iteration \<open>i\<close> works on
  the state the iterations before it left, a pair of the file system and the segment list.
  The manifest is saved after each iteration; only the last save shows afterwards.
  \<open>process_prefix\<close> and \<open>generate_prefix\<close> are the state after the first \<open>k\<close> iterations.
\<close>

definition process_step ::
  "tools \<Rightarrow> string option \<Rightarrow> real \<Rightarrow> nat \<Rightarrow> string set \<times> segment list \<Rightarrow> string set \<times> segment list" where
  "process_step env vocal time_offset i st =
     (let fs = fst st; segs = snd st; seg = segs ! i;
          expected_ref = ref_file env (seg_id seg) in
      if expected_ref \<in> fs
      then (fs, segs[i := seg\<lparr>ref_audio_path := Some expected_ref\<rparr>])
      else
        (case process_segment env vocal seg time_offset of
           Inr ref_audio \<Rightarrow> (insert ref_audio fs, segs[i := seg\<lparr>ref_audio_path := Some ref_audio\<rparr>])
         | Inl e \<Rightarrow> (fs, segs[i := seg\<lparr>status := ''error'', error_msg := Some e\<rparr>])))"

definition process_loop ::
  "tools \<Rightarrow> string option \<Rightarrow> real \<Rightarrow> string set \<times> segment list \<Rightarrow> string set \<times> segment list" where
  "process_loop env vocal time_offset st =
     foldl (\<lambda>st i. process_step env vocal time_offset i st) st [0..<length (snd st)]"


definition stage_process_segments :: "tools \<Rightarrow> world \<Rightarrow> world" where
  "stage_process_segments env w =
     (let m = manifest w;
          st = process_loop env (vocal_track m) (clip_start m) (files w, segments m)
      in save_manifest
           (w\<lparr>files := fst st,
              manifest := m\<lparr>segments := snd st,
                stages_status := (stages_status m)(''process'' \<mapsto> Flag ''completed'')\<rparr>\<rparr>))"

text \<open>
  One iteration of the synthesize loop. The post-processing sits in a \<open>try\<close> of its own:
  when the probe, the speed computation or the filter raises, the segment stays \<open>success\<close>
  with the unprocessed clip.
\<close>

definition post_process :: "tools \<Rightarrow> config \<Rightarrow> nat \<Rightarrow> string \<Rightarrow> string set \<times> segment list \<Rightarrow> string set \<times> segment list" where
  "post_process env cfg i output_path st =
     (let fs = fst st; segs = snd st; seg = segs ! i in
      case get_duration env output_path of
        Inl e \<Rightarrow> st
      | Inr actual \<Rightarrow>
          let seg2 = seg\<lparr>actual_duration := Some actual\<rparr>;
              segs2 = segs[i := seg2] in
          (case speed_adjustment cfg segs2 i actual of
             Inl e \<Rightarrow> (fs, segs2)
           | Inr speed \<Rightarrow>
               let final_path = final_file env (seg_id seg) in
               (case post_process_audio env output_path final_path speed of
                  Some e \<Rightarrow> (fs, segs2)
                | None \<Rightarrow>
                    let seg3 = seg2\<lparr>output_audio_path := Some final_path\<rparr>;
                        fs3 = insert final_path fs in
                    (case get_duration env final_path of
                       Inl e \<Rightarrow> (fs3, segs[i := seg3])
                     | Inr d \<Rightarrow> (fs3, segs[i := seg3\<lparr>actual_duration := Some d\<rparr>])))))"

definition generate_step :: "tools \<Rightarrow> config \<Rightarrow> nat \<Rightarrow> string set \<times> segment list \<Rightarrow> string set \<times> segment list" where
  "generate_step env cfg i st =
     (let fs = fst st; segs = snd st; seg = segs ! i in
      if status seg = ''success'' \<and> path_exists fs (output_audio_path seg) then st
      else if status seg = ''error'' \<or> \<not> truthy (ref_audio_path seg) then st
      else
        (case ref_audio_path seg of
           None \<Rightarrow> st
         | Some ref_audio \<Rightarrow>
             let output_path = dub_file env (seg_id seg) in
             (case tts_generate env (target_text seg) ref_audio output_path of
                Some e \<Rightarrow> (fs, segs[i := seg\<lparr>status := ''error'', error_msg := Some e\<rparr>])
              | None \<Rightarrow>
                  post_process env cfg i output_path
                    (insert output_path fs,
                     segs[i := seg\<lparr>output_audio_path := Some output_path,
                                    status := ''success''\<rparr>]))))"

definition generate_loop :: "tools \<Rightarrow> config \<Rightarrow> string set \<times> segment list \<Rightarrow> string set \<times> segment list" where
  "generate_loop env cfg st =
     foldl (\<lambda>st i. generate_step env cfg i st) st [0..<length (snd st)]"


definition stage_generate_dubbing :: "tools \<Rightarrow> config \<Rightarrow> world \<Rightarrow> world" where
  "stage_generate_dubbing env cfg w =
     (let m = manifest w;
          pending_segments =
            filter (\<lambda>s. \<not> (status s = ''success'' \<and> path_exists (files w) (output_audio_path s)))
              (segments m);
          st = (if pending_segments = [] then (files w, segments m)
                else generate_loop env cfg (files w, segments m))
      in save_manifest
           (w\<lparr>files := fst st,
              manifest := m\<lparr>segments := snd st,
                stages_status := (stages_status m)(''generate'' \<mapsto> Flag ''completed'')\<rparr>\<rparr>))"

section \<open>Timeline composer\<close>

text \<open>
  Modelled from the spec: the filters of the media tool, which \<open>audio_merger.py\<close> only
  invokes. A track is its list of samples at the configured sample rate, in exact
  arithmetic. \<open>adelay\<close> puts silence before a clip, \<open>apad\<close> fills it up with silence to a
  whole duration, and \<open>amix\<close> with \<open>duration=first\<close> and \<open>normalize=0\<close> adds its inputs sample
  by sample over the length of the first, a shorter input counting as silence at its end.
\<close>

type_synonym track = "int list"

definition silence :: "nat \<Rightarrow> track" where
  "silence n = replicate n 0"

definition adelay :: "nat \<Rightarrow> track \<Rightarrow> track" where
  "adelay d t = replicate d 0 @ t"

definition apad :: "nat \<Rightarrow> track \<Rightarrow> track" where
  "apad n t = t @ replicate (n - length t) 0"

definition mix2 :: "track \<Rightarrow> track \<Rightarrow> track" where
  "mix2 a b = map2 (+) a (take (length a) b @ replicate (length a - length b) 0)"

definition amix :: "track list \<Rightarrow> track option" where
  "amix ts = (case ts of [] \<Rightarrow> None | t # rest \<Rightarrow> Some (foldl mix2 t rest))"

text \<open>
  \<open>audio_merger.py\<close>. Python's \<open>int(x)\<close> truncates towards zero. The clips on disk are a map
  from paths to tracks; the tool fails on an input that is not there.
\<close>

definition py_int :: "real \<Rightarrow> int" where
  "py_int x = (if 0 \<le> x then \<lfloor>x\<rfloor> else \<lceil>x\<rceil>)"

definition delay_ms :: "segment \<Rightarrow> real \<Rightarrow> int" where
  "delay_ms seg time_offset = max 0 (py_int ((start_time seg - time_offset) * 1000))"

definition placed :: "(string \<rightharpoonup> track) \<Rightarrow> config \<Rightarrow> real \<Rightarrow> real \<Rightarrow> segment \<Rightarrow> track option" where
  "placed clips cfg total_duration time_offset seg =
     (case output_audio_path seg of
        None \<Rightarrow> None
      | Some p \<Rightarrow>
          (case clips p of
             None \<Rightarrow> None
           | Some clip \<Rightarrow>
               Some (apad (nat \<lfloor>total_duration * real (sample_rate cfg)\<rfloor>)
                      (adelay (nat (delay_ms seg time_offset) * sample_rate cfg div 1000) clip))))"

definition execute_merge ::
  "(string \<rightharpoonup> track) \<Rightarrow> config \<Rightarrow> segment list \<Rightarrow> real \<Rightarrow> real \<Rightarrow> error + track" where
  "execute_merge clips cfg segs total_duration time_offset =
     (case those (map (placed clips cfg total_duration time_offset) segs) of
        None \<Rightarrow> Inl (RuntimeError ''FFmpeg merge failed'')
      | Some delayed \<Rightarrow>
          (case amix (silence (nat \<lfloor>total_duration * real (sample_rate cfg)\<rfloor>) # delayed) of
             None \<Rightarrow> Inl (RuntimeError ''FFmpeg merge failed'')
           | Some t \<Rightarrow> Inr t))"

text \<open>\<open>valid[i:i + batch_size] for i in range(0, len(valid), batch_size)\<close>.\<close>

function batches :: "nat \<Rightarrow> 'a list \<Rightarrow> 'a list list" where
  "batches n xs = (if xs = [] \<or> n = 0 then [] else take n xs # batches n (drop n xs))"
  by pat_completeness auto
termination
  by (relation "measure (\<lambda>(n, xs). length xs)") auto

declare batches.simps [simp del]

fun run_batches ::
  "(string \<rightharpoonup> track) \<Rightarrow> config \<Rightarrow> real \<Rightarrow> real \<Rightarrow> segment list list \<Rightarrow> error + track list" where
  "run_batches clips cfg total_duration time_offset [] = Inr []"
| "run_batches clips cfg total_duration time_offset (batch # rest) =
     (case execute_merge clips cfg batch total_duration time_offset of
        Inl e \<Rightarrow> Inl e
      | Inr t \<Rightarrow>
          (case run_batches clips cfg total_duration time_offset rest of
             Inl e \<Rightarrow> Inl e
           | Inr ts \<Rightarrow> Inr (t # ts)))"

text \<open>
  The two passes of \<open>create_dubbed_track\<close> for more than 50 segments: every batch rendered
  over the silent base, then the batch tracks mixed. The batch files are fresh files that
  only this function reads, so the model hands their tracks over as values.
\<close>

definition batched_merge ::
  "(string \<rightharpoonup> track) \<Rightarrow> config \<Rightarrow> segment list \<Rightarrow> real \<Rightarrow> real \<Rightarrow> error + track" where
  "batched_merge clips cfg valid_segs total_duration time_offset =
     (case run_batches clips cfg total_duration time_offset (batches 50 valid_segs) of
        Inl e \<Rightarrow> Inl e
      | Inr batch_files \<Rightarrow>
          (case amix batch_files of
             None \<Rightarrow> Inl (RuntimeError ''final merge of the batch tracks failed'')
           | Some t \<Rightarrow> Inr t))"

definition valid_segments :: "segment list \<Rightarrow> segment list" where
  "valid_segments segs =
     filter (\<lambda>seg. status seg = ''success'' \<and> truthy (output_audio_path seg)) segs"

definition create_dubbed_track ::
  "(string \<rightharpoonup> track) \<Rightarrow> config \<Rightarrow> segment list \<Rightarrow> real \<Rightarrow> real \<Rightarrow> error + track" where
  "create_dubbed_track clips cfg segs total_duration time_offset =
     (let valid_segs = valid_segments segs in
      if valid_segs = [] then Inl (RuntimeError ''no dubbed segment available'')
      else if length valid_segs \<le> 50
      then execute_merge clips cfg valid_segs total_duration time_offset
      else batched_merge clips cfg valid_segs total_duration time_offset)"





subsection \<open>The gap vocal track\<close>










section \<open>Example values\<close>

text \<open>A segment, a manifest, a layout and a world, used where a statement is evaluated.\<close>

definition example_segment :: segment where
  "example_segment =
     \<lparr>seg_id = 1, start_time = 10, end_time = 12, duration = 2, source_text = [],
      target_text = [20320, 22909], ref_audio_path = None, output_audio_path = None,
      actual_duration = None, status = ''pending'', error_msg = None\<rparr>"

definition example_manifest :: manifest where
  "example_manifest =
     \<lparr>project_name = ''demo'', video_source = ''demo.mp4'', subtitle_source = ''demo.srt'',
      m_status = ''processing'', clipped_video = None, vocal_track = None, bgm_track = None,
      dubbed_track = None, final_video = None,
      stages_status = [''parse'' \<mapsto> Flag ''completed'', ''clip'' \<mapsto> Flag ''completed'',
        ''extract'' \<mapsto> Flag ''completed'', ''process'' \<mapsto> Flag ''completed'',
        ''generate'' \<mapsto> Flag ''completed'', ''merge'' \<mapsto> Flag ''completed''],
      clip_start = 8, clip_end = 14, segments = [], m_error_msg = None\<rparr>"

definition example_layout :: layout where
  "example_layout =
     \<lparr>full_audio = ''temp/intermediate/demo_full.wav'',
      is_seg_wav = (\<lambda>p. p = ''temp/segments/seg_0001.wav''),
      is_ref_wav = (\<lambda>p. p = ''temp/segments/ref_0001.wav''),
      is_dub_wav = (\<lambda>p. p = ''temp/output/dub_0001.wav'' \<or> p = ''temp/output/dub_0001_final.wav'')\<rparr>"

definition example_tools :: "real \<Rightarrow> tools" where
  "example_tools d =
     \<lparr>ref_file = (\<lambda>i. if i = 1 then ''temp/segments/ref_0001.wav''
                       else ''temp/segments/ref_0002.wav''),
      dub_file = (\<lambda>i. if i = 1 then ''temp/output/dub_0001.wav''
                       else ''temp/output/dub_0002.wav''),
      final_file = (\<lambda>i. if i = 1 then ''temp/output/dub_0001_final.wav''
                         else ''temp/output/dub_0002_final.wav''),
      get_duration = (\<lambda>p. Inr d),
      process_segment = (\<lambda>v s time_offset.
         if seg_id s = 1 then Inl ''ffmpeg failed'' else Inr ''temp/segments/seg_0002.wav''),
      tts_generate = (\<lambda>txt r out.
         if out = ''temp/output/dub_0001.wav'' then Some ''synthesis failed'' else None),
      post_process_audio = (\<lambda>i out sp. None)\<rparr>"

definition example_world :: world where
  "example_world =
     \<lparr>files = {''temp/intermediate/demo_clip.mp4'', ''temp/intermediate/demo_full_vocals.wav'',
               ''temp/intermediate/demo_full_bgm.wav'', ''temp/output/dub_0001_final.wav''},
      manifest = example_manifest
        \<lparr>clipped_video := Some ''temp/intermediate/demo_clip.mp4'',
         vocal_track := Some ''temp/intermediate/demo_full_vocals.wav'',
         bgm_track := Some ''temp/intermediate/demo_full_bgm.wav'',
         segments := [example_segment
           \<lparr>ref_audio_path := Some ''temp/segments/seg_0001.wav'',
            output_audio_path := Some ''temp/output/dub_0001_final.wav'',
            actual_duration := Some 2, status := ''success''\<rparr>]\<rparr>,
      saved = None\<rparr>"

definition two_segments :: "segment list" where
  "two_segments =
     [example_segment,
      example_segment\<lparr>seg_id := 2, start_time := 12.3, end_time := 14, duration := 1.7\<rparr>]"


definition example_clips :: "string \<rightharpoonup> track" where
  "example_clips = [''temp/output/dub_final.wav'' \<mapsto> [3, -1, 2]]"


definition zero_length_cue :: "cue list" where
  "zero_length_cue = [\<lparr>cue_start = 5000, cue_end = 5000, plaintext = [20320, 22909]\<rparr>]"

definition one_cue :: "cue list" where
  "one_cue = [\<lparr>cue_start = 10000, cue_end = 12000, plaintext = [20320, 22909]\<rparr>]"

definition two_cues :: "cue list" where
  "two_cues = [\<lparr>cue_start = 1000, cue_end = 3000, plaintext = [20320, 22909]\<rparr>,
               \<lparr>cue_start = 4000, cue_end = 6000, plaintext = [20877, 35265]\<rparr>]"


section \<open>Segment round trip\<close>

lemma bind_err_Inr [simp]: "bind_err (Inr x) f = f x"
  by (simp add: bind_err_def)

lemma bind_err_Inl [simp]: "bind_err (Inl e) f = Inl e"
  by (simp add: bind_err_def)

lemma to_dict_keys: "map fst (to_dict s) = field_names"
  by (simp add: to_dict_def field_names_def)

text \<open>
  C10. For every Segment \<open>s\<close>, \<open>Segment.from_dict(s.to_dict())\<close> is \<open>s\<close>: all eleven fields,
  the processing fields and their \<open>None\<close> values included, come back unchanged.
\<close>

theorem from_dict_to_dict: "from_dict (to_dict s) = Inr s"
proof -
  have keys: "\<not> list_ex (\<lambda>kv. fst kv \<notin> set field_names) (to_dict s)"
    using to_dict_keys [of s] by (auto simp: list_ex_iff) (metis image_eqI list.set_map fst_conv)
  have "from_dict (to_dict s) =
      Inr \<lparr>seg_id = seg_id s, start_time = start_time s, end_time = end_time s,
           duration = duration s, source_text = source_text s, target_text = target_text s,
           ref_audio_path = ref_audio_path s, output_audio_path = output_audio_path s,
           actual_duration = actual_duration s, status = status s,
           error_msg = error_msg s\<rparr>"
    unfolding from_dict_def using keys
    by (simp add: to_dict_def split: option.splits)
  then show ?thesis by simp
qed

section \<open>Stage completion\<close>

text \<open>
  C2, as the specification states it, fails: for the stages \<open>parse\<close>, \<open>process\<close> and \<open>generate\<close>
  the check reads the flag alone. Here the \<open>generate\<close> flag is \<open>completed\<close>, the only segment
  claims an output clip that is not on disk, and the stage counts as complete.
\<close>

theorem is_stage_completed_counterexample:
  "is_stage_completed {}
     (example_manifest\<lparr>segments :=
        [example_segment\<lparr>status := ''success'',
           output_audio_path := Some ''temp/output/dub_0001_final.wav''\<rparr>]\<rparr>) ''generate''
   \<and> \<not> path_exists {} (Some ''temp/output/dub_0001_final.wav'')"
  by (simp add: is_stage_completed_def stage_flag_def example_manifest_def path_exists_def)

text \<open>
  C2, amended. A stage is complete only if its flag (read through the old nested format
  too) is \<open>completed\<close>. For \<open>clip\<close>, \<open>extract\<close> and \<open>merge\<close> it is complete exactly when,
  besides, the artifact path the manifest holds for it (\<open>clipped_video\<close>, \<open>vocal_track\<close>,
  \<open>final_video\<close>) is set, non-empty and exists; for every other stage name the flag decides.
\<close>

theorem is_stage_completed_iff:
  "(is_stage_completed fs m stage_name \<longrightarrow> stage_flag m stage_name = Some ''completed'') \<and>
   (stage_name = ''clip'' \<longrightarrow>
      is_stage_completed fs m stage_name =
        (stage_flag m stage_name = Some ''completed'' \<and> path_exists fs (clipped_video m))) \<and>
   (stage_name = ''extract'' \<longrightarrow>
      is_stage_completed fs m stage_name =
        (stage_flag m stage_name = Some ''completed'' \<and> path_exists fs (vocal_track m))) \<and>
   (stage_name = ''merge'' \<longrightarrow>
      is_stage_completed fs m stage_name =
        (stage_flag m stage_name = Some ''completed'' \<and> path_exists fs (final_video m))) \<and>
   (stage_name \<notin> {''clip'', ''extract'', ''merge''} \<longrightarrow>
      is_stage_completed fs m stage_name = (stage_flag m stage_name = Some ''completed''))"
  by (simp add: is_stage_completed_def)

theorem is_stage_completed_iff_witness:
  "\<not> is_stage_completed {''temp/intermediate/demo_full_vocals.wav''}
       (example_manifest\<lparr>clipped_video := Some ''temp/intermediate/demo_clip.mp4''\<rparr>) ''clip''
   \<and> is_stage_completed {''temp/intermediate/demo_clip.mp4''}
       (example_manifest\<lparr>clipped_video := Some ''temp/intermediate/demo_clip.mp4''\<rparr>) ''clip''
   \<and> stage_flag example_manifest ''clip'' = Some ''completed''"
  using is_stage_completed_iff [of "{''temp/intermediate/demo_full_vocals.wav''}"
      "example_manifest\<lparr>clipped_video := Some ''temp/intermediate/demo_clip.mp4''\<rparr>" "''clip''"]
    is_stage_completed_iff [of "{''temp/intermediate/demo_clip.mp4''}"
      "example_manifest\<lparr>clipped_video := Some ''temp/intermediate/demo_clip.mp4''\<rparr>" "''clip''"]
  by (simp add: stage_flag_def example_manifest_def path_exists_def)

section \<open>Invalidation on a change of the time window\<close>

lemma unlink_if_exists_subset: "unlink_if_exists p fs \<subseteq> fs"
  by (auto simp: unlink_if_exists_def split: option.splits)

lemma unlink_if_exists_gone: "\<not> path_exists (unlink_if_exists p fs) p"
  by (auto simp: unlink_if_exists_def path_exists_def split: option.splits)

lemma path_exists_mono: "path_exists fs p \<Longrightarrow> fs \<subseteq> fs' \<Longrightarrow> path_exists fs' p"
  by (auto simp: path_exists_def split: option.splits)

lemma reset_segment_fields:
  "ref_audio_path (reset_segment s) = None" "output_audio_path (reset_segment s) = None"
  "actual_duration (reset_segment s) = None" "status (reset_segment s) = ''pending''"
  "seg_id (reset_segment s) = seg_id s" "start_time (reset_segment s) = start_time s"
  "end_time (reset_segment s) = end_time s" "duration (reset_segment s) = duration s"
  "source_text (reset_segment s) = source_text s" "target_text (reset_segment s) = target_text s"
  by (simp_all add: reset_segment_def Let_def)

text \<open>
  C1. The manifest names a clipped video that exists and whose duration the probe measures.
  If the measured duration differs from \<open>clip_end - clip_start\<close> by more than 2 seconds,
  afterwards the clipped video, the vocal track and the background track are gone from
  disk, the flags of \<open>clip\<close>, \<open>extract\<close>, \<open>process\<close> and \<open>generate\<close> are \<open>pending\<close>, and every
  segment has no reference clip, no output clip, no measured duration and status \<open>pending\<close>.
  If the difference is at most 2 seconds, nothing changes: not the manifest, not the files.
\<close>

theorem invalidate_on_range_change_correct:
  assumes clip: "clipped_video (manifest w) = Some clip" "clip \<noteq> []" "clip \<in> files w"
    and dur: "get_duration env clip = Inr actual"
  shows "(2 < \<bar>actual - (clip_end (manifest w) - clip_start (manifest w))\<bar> \<longrightarrow>
           (let w' = invalidate_on_range_change lay env w in
            \<not> path_exists (files w') (clipped_video (manifest w)) \<and>
            \<not> path_exists (files w') (vocal_track (manifest w)) \<and>
            \<not> path_exists (files w') (bgm_track (manifest w)) \<and>
            stage_flag (manifest w') ''clip'' = Some ''pending'' \<and>
            stage_flag (manifest w') ''extract'' = Some ''pending'' \<and>
            stage_flag (manifest w') ''process'' = Some ''pending'' \<and>
            stage_flag (manifest w') ''generate'' = Some ''pending'' \<and>
            length (segments (manifest w')) = length (segments (manifest w)) \<and>
            (\<forall>s \<in> set (segments (manifest w')).
               ref_audio_path s = None \<and> output_audio_path s = None \<and>
               actual_duration s = None \<and> status s = ''pending''))) \<and>
         (\<bar>actual - (clip_end (manifest w) - clip_start (manifest w))\<bar> \<le> 2 \<longrightarrow>
            invalidate_on_range_change lay env w = w)"
proof (intro conjI impI)
  assume le: "\<bar>actual - (clip_end (manifest w) - clip_start (manifest w))\<bar> \<le> 2"
  show "invalidate_on_range_change lay env w = w"
    using clip dur le by (simp add: invalidate_on_range_change_def Let_def)
next
  assume gt: "2 < \<bar>actual - (clip_end (manifest w) - clip_start (manifest w))\<bar>"
  define m where "m = manifest w"
  define fs1 where "fs1 = unlink_if_exists (bgm_track m)
      (unlink_if_exists (vocal_track m) (unlink_if_exists (clipped_video m) (files w)))"
  define fs4 where "fs4 = Set.filter (\<lambda>p. \<not> is_dub_wav lay p)
      (Set.filter (\<lambda>p. \<not> is_seg_wav lay p \<and> \<not> is_ref_wav lay p) (fs1 - {full_audio lay}))"
  define m' where "m' = m\<lparr>clipped_video := None, vocal_track := None, bgm_track := None,
      stages_status := (stages_status m)
        (''clip'' \<mapsto> Flag ''pending'', ''extract'' \<mapsto> Flag ''pending'',
         ''process'' \<mapsto> Flag ''pending'', ''generate'' \<mapsto> Flag ''pending''),
      segments := map reset_segment (segments m)\<rparr>"
  have eq: "invalidate_on_range_change lay env w =
      save_manifest (w\<lparr>files := fs4, manifest := m'\<rparr>)"
    using clip dur gt
    by (simp add: invalidate_on_range_change_def Let_def m_def fs1_def fs4_def m'_def)
  have sub4: "fs4 \<subseteq> fs1" by (auto simp: fs4_def)
  have g1: "\<not> path_exists fs1 (clipped_video m)"
    using unlink_if_exists_gone [of "clipped_video m" "files w"]
      path_exists_mono unlink_if_exists_subset unfolding fs1_def by metis
  have g2: "\<not> path_exists fs1 (vocal_track m)"
    using unlink_if_exists_gone [of "vocal_track m"]
      path_exists_mono unlink_if_exists_subset unfolding fs1_def by metis
  have g3: "\<not> path_exists fs1 (bgm_track m)"
    using unlink_if_exists_gone [of "bgm_track m"] unfolding fs1_def by metis
  have files: "files (invalidate_on_range_change lay env w) = fs4"
    and man: "manifest (invalidate_on_range_change lay env w) = m'"
    by (simp_all add: eq save_manifest_def)
  show "let w' = invalidate_on_range_change lay env w in
            \<not> path_exists (files w') (clipped_video (manifest w)) \<and>
            \<not> path_exists (files w') (vocal_track (manifest w)) \<and>
            \<not> path_exists (files w') (bgm_track (manifest w)) \<and>
            stage_flag (manifest w') ''clip'' = Some ''pending'' \<and>
            stage_flag (manifest w') ''extract'' = Some ''pending'' \<and>
            stage_flag (manifest w') ''process'' = Some ''pending'' \<and>
            stage_flag (manifest w') ''generate'' = Some ''pending'' \<and>
            length (segments (manifest w')) = length (segments (manifest w)) \<and>
            (\<forall>s \<in> set (segments (manifest w')).
               ref_audio_path s = None \<and> output_audio_path s = None \<and>
               actual_duration s = None \<and> status s = ''pending'')"
    unfolding Let_def files man
    using g1 g2 g3 sub4 path_exists_mono
    by (auto simp: m'_def m_def [symmetric] stage_flag_def reset_segment_fields)
qed

theorem invalidate_on_range_change_witness:
  "(let w' = invalidate_on_range_change example_layout (example_tools 60) example_world in
      \<not> path_exists (files w') (Some ''temp/intermediate/demo_clip.mp4'') \<and>
      \<not> path_exists (files w') (Some ''temp/intermediate/demo_full_vocals.wav'') \<and>
      \<not> path_exists (files w') (Some ''temp/intermediate/demo_full_bgm.wav'') \<and>
      stage_flag (manifest w') ''clip'' = Some ''pending'' \<and>
      stage_flag (manifest w') ''generate'' = Some ''pending'' \<and>
      map status (segments (manifest w')) = [''pending''] \<and>
      map output_audio_path (segments (manifest w')) = [None]) \<and>
   invalidate_on_range_change example_layout (example_tools 7) example_world = example_world"
proof -
  have c: "clipped_video (manifest example_world) = Some ''temp/intermediate/demo_clip.mp4''"
    "''temp/intermediate/demo_clip.mp4'' \<noteq> []"
    "''temp/intermediate/demo_clip.mp4'' \<in> files example_world"
    by (simp_all add: example_world_def example_manifest_def)
  have e: "clip_end (manifest example_world) - clip_start (manifest example_world) = 6"
    "vocal_track (manifest example_world) = Some ''temp/intermediate/demo_full_vocals.wav''"
    "bgm_track (manifest example_world) = Some ''temp/intermediate/demo_full_bgm.wav''"
    "length (segments (manifest example_world)) = 1"
    by (simp_all add: example_world_def example_manifest_def)
  have far: "get_duration (example_tools 60) ''temp/intermediate/demo_clip.mp4'' = Inr 60"
    and near: "get_duration (example_tools 7) ''temp/intermediate/demo_clip.mp4'' = Inr 7"
    by (simp_all add: example_tools_def)
  note t1 = invalidate_on_range_change_correct [OF c far, of example_layout]
  note t2 = invalidate_on_range_change_correct [OF c near, of example_layout]
  show ?thesis
    using t1 t2 unfolding e c(1) Let_def
    by (auto simp: length_Suc_conv)
qed

section \<open>Speed adjustment\<close>

lemma skip_errors_two: "skip_errors two_segments (Suc 0) = Suc 0"
  by (subst skip_errors.simps) (simp add: two_segments_def example_segment_def)

text \<open>
  C3, as the specification states it, fails: the recomputed multiplier is capped at 2.0
  and may leave the configured bounds. With the defaults, a clip of 5 seconds for the
  slot at 10.0 and the next segment at 12.3 gets the multiplier 2, above the configured
  maximum 1.25, and its rendered 2.5 seconds run past the headroom of 2.25 seconds.
\<close>

theorem speed_adjustment_counterexample:
  "speed_adjustment default_config two_segments 0 5 = Inr (Some 2) \<and>
   (12.3 - 10 - 0.05 :: real) < 5 / 2 \<and>
   speed_max_atempo default_config < 2"
  by (simp add: speed_adjustment_def Let_def skip_errors_two)
     (simp add: two_segments_def example_segment_def default_config_def)

text \<open>
  C3, amended. For a segment with positive slot and clip durations whose ratio lies outside
  the tolerance band, and configured bounds \<open>0 < min \<le> max\<close>, a multiplier is computed. It
  is the ratio clamped to the configured bounds, unless a next non-error segment exists, the
  headroom (its start minus this start minus 50 ms) is positive and the clamped rendering
  would exceed it: then it is the clip duration over the headroom, capped at 2.0. Whenever
  the headroom is positive and the clip is at most twice as long as the headroom, the
  rendered duration does not exceed the headroom.
\<close>

theorem speed_adjustment_headroom:
  assumes i: "i < length segs"
    and pos: "0 < duration (segs ! i)" "0 < actual"
    and bounds: "0 < speed_min_atempo cfg" "speed_min_atempo cfg \<le> speed_max_atempo cfg"
    and band: "actual / duration (segs ! i) < 1 - speed_no_adjust_threshold cfg \<or>
               1 + speed_no_adjust_threshold cfg < actual / duration (segs ! i)"
  shows "\<exists>speed.
     speed_adjustment cfg segs i actual = Inr (Some speed) \<and> 0 < speed \<and>
     (let clamped = max (speed_min_atempo cfg)
                      (min (speed_max_atempo cfg) (actual / duration (segs ! i)));
          next_idx = skip_errors segs (i + 1);
          headroom = start_time (segs ! next_idx) - start_time (segs ! i) - 0.05
      in speed_min_atempo cfg \<le> clamped \<and> clamped \<le> speed_max_atempo cfg \<and>
         (if next_idx < length segs \<and> 0 < headroom \<and> headroom < actual / clamped
          then speed = min (actual / headroom) 2
          else speed = clamped) \<and>
         (next_idx < length segs \<and> 0 < headroom \<and> actual \<le> 2 * headroom
            \<longrightarrow> actual / speed \<le> headroom))"
proof -
  define clamped where
    "clamped = max (speed_min_atempo cfg) (min (speed_max_atempo cfg) (actual / duration (segs ! i)))"
  define next_idx where "next_idx = skip_errors segs (i + 1)"
  define headroom where "headroom = start_time (segs ! next_idx) - start_time (segs ! i) - 0.05"
  have c: "speed_min_atempo cfg \<le> clamped" "clamped \<le> speed_max_atempo cfg" "0 < clamped"
    using bounds by (auto simp: clamped_def)
  show ?thesis
  proof (cases "next_idx < length segs \<and> 0 < headroom \<and> headroom < actual / clamped")
    case True
    then have h: "0 < headroom" "headroom < actual / clamped" by auto
    have sp: "speed_adjustment cfg segs i actual = Inr (Some (min (actual / headroom) 2))"
      using True band pos c
      unfolding speed_adjustment_def Let_def clamped_def next_idx_def headroom_def
      by simp
    have p: "0 < min (actual / headroom) 2" using h pos by simp
    have r: "actual / min (actual / headroom) 2 \<le> headroom" if "actual \<le> 2 * headroom"
    proof -
      have "actual / headroom \<le> 2" using that h by (simp add: field_simps)
      then have "min (actual / headroom) 2 = actual / headroom" by simp
      then show ?thesis using pos h by simp
    qed
    show ?thesis
      using sp p r True c
      unfolding Let_def clamped_def [symmetric] next_idx_def [symmetric] headroom_def [symmetric]
      by auto
  next
    case False
    have sp: "speed_adjustment cfg segs i actual = Inr (Some clamped)"
      using False band pos c
      unfolding speed_adjustment_def Let_def clamped_def next_idx_def headroom_def
      by auto
    have r: "actual / clamped \<le> headroom" if "next_idx < length segs" "0 < headroom"
      using that False by auto
    show ?thesis
      using sp r False c
      unfolding Let_def clamped_def [symmetric] next_idx_def [symmetric] headroom_def [symmetric]
      by auto
  qed
qed

text \<open>
  The example of the specification: start 10.0, slot 2.0, clip 2.6, next segment at 12.3.
  The multiplier is 1.25, the rendered 2.08 seconds stay below 2.25, and 1.25 is at least
  2.6 / 2.25.
\<close>

theorem speed_adjustment_headroom_witness:
  "speed_adjustment default_config two_segments 0 2.6 = Inr (Some 1.25) \<and>
   (2.6 / 1.25 :: real) \<le> 12.3 - 10 - 0.05 \<and> (2.6 / 2.25 :: real) \<le> 1.25"
proof -
  have a: "0 < length two_segments" "0 < duration (two_segments ! 0)" "(0::real) < 2.6"
    "0 < speed_min_atempo default_config"
    "speed_min_atempo default_config \<le> speed_max_atempo default_config"
    "2.6 / duration (two_segments ! 0) < 1 - speed_no_adjust_threshold default_config \<or>
     1 + speed_no_adjust_threshold default_config < 2.6 / duration (two_segments ! 0)"
    by (simp_all add: two_segments_def example_segment_def default_config_def)
  from speed_adjustment_headroom [OF a]
  obtain speed where s: "speed_adjustment default_config two_segments 0 2.6 = Inr (Some speed)"
    and rest: "(let clamped = max (speed_min_atempo default_config)
                      (min (speed_max_atempo default_config) (2.6 / duration (two_segments ! 0)));
          next_idx = skip_errors two_segments (0 + 1);
          headroom = start_time (two_segments ! next_idx) - start_time (two_segments ! 0) - 0.05
      in speed_min_atempo default_config \<le> clamped \<and> clamped \<le> speed_max_atempo default_config \<and>
         (if next_idx < length two_segments \<and> 0 < headroom \<and> headroom < 2.6 / clamped
          then speed = min (2.6 / headroom) 2
          else speed = clamped) \<and>
         (next_idx < length two_segments \<and> 0 < headroom \<and> 2.6 \<le> 2 * headroom
            \<longrightarrow> 2.6 / speed \<le> headroom))"
    by blast
  have k: "skip_errors two_segments (0 + 1) = 1"
    using skip_errors_two by simp
  have "speed = 1.25"
    using rest unfolding Let_def k
    by (simp add: two_segments_def example_segment_def default_config_def)
  then show ?thesis using s by simp
qed

section \<open>Timeline composer\<close>

subsection \<open>Mixing is a sum\<close>

lemma length_mix2 [simp]: "length (mix2 a b) = length a"
  by (simp add: mix2_def)





lemma length_foldl_mix2 [simp]: "length (foldl mix2 a ts) = length a"
  by (induction ts arbitrary: a) simp_all
















subsection \<open>Two passes against one\<close>




subsection \<open>No usable segment\<close>

text \<open>
  C9. When no segment has status \<open>success\<close> together with a set output path,
  \<open>create_dubbed_track\<close> raises instead of returning a (silent) track.
\<close>

theorem create_dubbed_track_raises:
  assumes "\<forall>s \<in> set segs. \<not> (status s = ''success'' \<and> output_audio_path s \<noteq> None)"
  shows "create_dubbed_track clips cfg segs total_duration time_offset =
           Inl (RuntimeError ''no dubbed segment available'')"
proof -
  have "valid_segments segs = []"
    using assms by (auto simp: valid_segments_def truthy_def filter_empty_conv split: option.splits)
  then show ?thesis by (simp add: create_dubbed_track_def)
qed

theorem create_dubbed_track_raises_witness:
  "create_dubbed_track example_clips default_config
     [example_segment\<lparr>status := ''error'', error_msg := Some ''synthesis failed''\<rparr>,
      example_segment\<lparr>seg_id := 2\<rparr>] 6 8 =
   Inl (RuntimeError ''no dubbed segment available'')"
  using create_dubbed_track_raises [of
     "[example_segment\<lparr>status := ''error'', error_msg := Some ''synthesis failed''\<rparr>,
       example_segment\<lparr>seg_id := 2\<rparr>]" example_clips default_config 6 8]
  by (simp add: example_segment_def)

section \<open>One segment's failure and the stage loops\<close>




























section \<open>Subtitle extraction\<close>

lemma low_part_prefix: "\<exists>x. low_part r m = r @ x"
  by (simp add: low_part_def Let_def)

lemma low_part_nonempty: "r \<noteq> [] \<or> 0 < m \<Longrightarrow> low_part r m \<noteq> []"
  by (auto simp: low_part_def Let_def)

lemma int_to_cn_nonempty: "int_to_cn n \<noteq> []"
proof (cases "n = 0")
  case True
  then show ?thesis by (simp add: int_to_cn.simps)
next
  case False
  show ?thesis
    using False
    by (subst int_to_cn.simps) (auto simp: Let_def intro!: low_part_nonempty)
qed

lemma num_to_cn_nonempty: "num_to_cn g \<noteq> []"
  by (simp add: num_to_cn_def int_to_cn_nonempty)

lemma sub_percent_nonempty: "s \<noteq> [] \<Longrightarrow> sub_percent s \<noteq> []"
  by (cases s) (simp_all add: Let_def)

lemma sub_year_nonempty: "s \<noteq> [] \<Longrightarrow> sub_year s \<noteq> []"
  by (cases s) (simp_all add: Let_def)

lemma sub_long_nonempty: "s \<noteq> [] \<Longrightarrow> sub_long s \<noteq> []"
  by (cases s) (auto simp add: Let_def digits_to_cn_def)

lemma sub_number_nonempty: "s \<noteq> [] \<Longrightarrow> sub_number s \<noteq> []"
  by (cases s) (simp_all add: Let_def num_to_cn_nonempty)

lemma convert_numbers_nonempty: "s \<noteq> [] \<Longrightarrow> convert_numbers s \<noteq> []"
  by (simp add: convert_numbers_def sub_percent_nonempty sub_year_nonempty sub_long_nonempty
      sub_number_nonempty)

lemma strip_empty: "strip [] = []"
  by (simp add: strip_def)

lemma load_step_Accept_target: "load_step subs st en i = Accept i' src tgt \<Longrightarrow> tgt \<noteq> []"
  by (auto simp: load_step_def Let_def strip_empty split: if_splits option.splits prod.splits)

lemma load_step_Accept_window:
  "load_step subs st en i = Accept i' src tgt \<Longrightarrow>
   st \<le> real_of_int (cue_start (subs ! i)) / 1000 \<and>
   (\<forall>e. en = Some e \<longrightarrow> real_of_int (cue_start (subs ! i)) / 1000 < e)"
  by (auto simp: load_step_def Let_def split: if_splits option.splits prod.splits)

lemma make_segment_extracted:
  assumes "load_step subs st en i = Accept i' src tgt" "i < length subs"
  shows "extracted subs st en (make_segment sid (subs ! i) src tgt)"
  using load_step_Accept_target [OF assms(1)] load_step_Accept_window [OF assms(1)] assms(2)
  by (auto simp: extracted_def make_segment_def convert_numbers_nonempty list_ex_iff
      split: option.splits)

lemma load_loop_extracted:
  "list_all (extracted subs st en) segs \<Longrightarrow>
   list_all (extracted subs st en) (load_loop subs st en mx i segs sid)"
proof (induction subs st en mx i segs sid rule: load_loop.induct)
  case (1 subs st en mx i segs sid)
  show ?case
  proof (cases "i < length subs")
    case False
    then show ?thesis using "1.prems" by (simp add: load_loop.simps [of subs st en mx i])
  next
    case True
    show ?thesis
    proof (cases "load_step subs st en i")
      case Break
      then show ?thesis using True "1.prems" by (simp add: load_loop.simps [of subs st en mx i])
    next
      case (Skip i')
      then show ?thesis
        using True "1.prems" "1.IH"(1) by (simp add: load_loop.simps [of subs st en mx i])
    next
      case (Accept i' src tgt)
      have ok: "list_all (extracted subs st en) (segs @ [make_segment sid (subs ! i) src tgt])"
        using "1.prems" make_segment_extracted [OF Accept True] by simp
      show ?thesis
        using True Accept ok "1.IH"(2) [OF True Accept refl]
        by (simp add: load_loop.simps [of subs st en mx i] Let_def)
    qed
  qed
qed

lemma load_loop_length:
  "0 < N \<Longrightarrow> int (length segs) < N \<Longrightarrow>
   int (length (load_loop subs st en (Some N) i segs sid)) \<le> N"
proof (induction subs st en "Some N" i segs sid rule: load_loop.induct)
  case (1 subs st en i segs sid)
  show ?case
  proof (cases "i < length subs")
    case False
    then show ?thesis using "1.prems" by (simp add: load_loop.simps [of subs st en _ i])
  next
    case True
    show ?thesis
    proof (cases "load_step subs st en i")
      case Break
      then show ?thesis using True "1.prems" by (simp add: load_loop.simps [of subs st en _ i])
    next
      case (Skip i')
      then show ?thesis
        using True "1.prems" "1.hyps"(1) by (simp add: load_loop.simps [of subs st en _ i])
    next
      case (Accept i' src tgt)
      show ?thesis
      proof (cases "cap_reached (Some N) (Suc (length segs))")
        case c: True
        then show ?thesis
          using True Accept "1.prems"
          by (simp add: load_loop.simps [of subs st en _ i] Let_def)
      next
        case c: False
        then have "int (Suc (length segs)) < N" using "1.prems" by (simp add: cap_reached_def)
        then show ?thesis
          using True Accept c "1.prems" "1.hyps"(2) [OF True Accept refl]
          by (simp add: load_loop.simps [of subs st en _ i] Let_def)
      qed
    qed
  qed
qed

lemma extracted_cue:
  assumes "extracted subs st en seg"
  shows "target_text seg \<noteq> [] \<and>
      (\<exists>line \<in> set subs.
         start_time seg = real_of_int (cue_start line) / 1000 \<and>
         end_time seg = real_of_int (cue_end line) / 1000 \<and>
         (start_time seg < end_time seg \<longleftrightarrow> cue_start line < cue_end line))"
proof -
  from assms obtain line where l: "line \<in> set subs"
    "start_time seg = real_of_int (cue_start line) / 1000"
    "end_time seg = real_of_int (cue_end line) / 1000"
    by (auto simp: extracted_def list_ex_iff)
  have "(start_time seg < end_time seg) = (cue_start line < cue_end line)"
    unfolding l by (simp add: divide_less_cancel)
  then show ?thesis using assms l by (auto simp: extracted_def)
qed

lemma not_space: "\<not> is_space 20320" "\<not> is_space 22909"
  by (simp_all add: is_space_def)

lemma strip_nihao: "strip [20320, 22909] = [20320, 22909]"
  by (simp add: strip_def not_space)

lemma clean_nihao: "clean_text [20320, 22909] = [20320, 22909]"
  by (simp add: clean_text_def is_opener_def strip_nihao)

lemma chinese_nihao: "is_chinese [20320, 22909]"
  by (simp add: is_chinese_def)

lemma not_digit_nihao: "\<not> is_digit 20320" "\<not> is_digit 22909"
  by (simp_all add: is_digit_def digit_value_def nd_zeros_def)

lemma convert_nihao: "convert_numbers [20320, 22909] = [20320, 22909]"
  by (simp add: convert_numbers_def number_at_def not_digit_nihao Let_def)

lemma step_zero: "load_step zero_length_cue 0 None 0 = Accept 1 [] [20320, 22909]"
  by (simp add: load_step_def zero_length_cue_def Let_def strip_nihao clean_nihao chinese_nihao
      pair_with_next_def)

text \<open>
  C4, as the specification states it, fails in its last part: extraction never compares the
  start of a cue with its end. A cue that starts and ends at 5.000 s gives a segment whose
  \<open>start_time\<close> is not less than its \<open>end_time\<close>.
\<close>

theorem load_start_before_end_counterexample:
  "load zero_length_cue 0 None (Some 5) =
     [\<lparr>seg_id = 1, start_time = 5, end_time = 5, duration = 0, source_text = [],
       target_text = [20320, 22909], ref_audio_path = None, output_audio_path = None,
       actual_duration = None, status = ''pending'', error_msg = None\<rparr>] \<and>
   \<not> (\<forall>seg \<in> set (load zero_length_cue 0 None (Some 5)). start_time seg < end_time seg)"
proof -
  have l: "length zero_length_cue = 1" by (simp add: zero_length_cue_def)
  have "load zero_length_cue 0 None (Some 5) =
     [\<lparr>seg_id = 1, start_time = 5, end_time = 5, duration = 0, source_text = [],
       target_text = [20320, 22909], ref_audio_path = None, output_audio_path = None,
       actual_duration = None, status = ''pending'', error_msg = None\<rparr>]"
    unfolding load_def
    apply (subst load_loop.simps)
    apply (simp add: l step_zero Let_def cap_reached_def)
    apply (subst load_loop.simps)
    apply (simp add: l make_segment_def zero_length_cue_def convert_nihao)
    done
  then show ?thesis by simp
qed

text \<open>
  C4, amended. For every list of cues and every positive cap \<open>N\<close>, extraction returns at most
  \<open>N\<close> segments. Whatever the cap, every returned segment has a non-empty \<open>target_text\<close> and
  takes its \<open>start_time\<close> and \<open>end_time\<close> from a cue of the file, so \<open>start_time < end_time\<close>
  holds exactly when that cue starts before it ends.
\<close>

theorem load_at_most_and_nonempty:
  "(0 < N \<longrightarrow> int (length (load subs st en (Some N))) \<le> N) \<and>
   (\<forall>seg \<in> set (load subs st en mx).
      target_text seg \<noteq> [] \<and>
      (\<exists>line \<in> set subs.
         start_time seg = real_of_int (cue_start line) / 1000 \<and>
         end_time seg = real_of_int (cue_end line) / 1000 \<and>
         (start_time seg < end_time seg \<longleftrightarrow> cue_start line < cue_end line)))"
proof -
  have a: "list_all (extracted subs st en) (load subs st en mx)"
    unfolding load_def by (rule load_loop_extracted) simp
  have b: "int (length (load subs st en (Some N))) \<le> N" if "0 < N"
    unfolding load_def using load_loop_length [OF that, of "[]"] that by simp
  show ?thesis
    using a b extracted_cue [of subs st en] by (simp add: list_all_iff)
qed

lemma step_two: "load_step two_cues 0 None 0 = Accept 1 [] [20320, 22909]"
  by (simp add: load_step_def two_cues_def Let_def strip_nihao clean_nihao chinese_nihao
      pair_with_next_def)

lemma load_two_cues:
  "load two_cues 0 None (Some 1) =
     [\<lparr>seg_id = 1, start_time = 1, end_time = 3, duration = 2, source_text = [],
       target_text = [20320, 22909], ref_audio_path = None, output_audio_path = None,
       actual_duration = None, status = ''pending'', error_msg = None\<rparr>]"
proof -
  have l: "length two_cues = 2" by (simp add: two_cues_def)
  show ?thesis
    unfolding load_def
    apply (subst load_loop.simps)
    apply (simp add: l step_two Let_def cap_reached_def)
    apply (simp add: make_segment_def two_cues_def convert_nihao)
    done
qed

text \<open>Two cues and the cap 1: the first cue alone is returned.\<close>

theorem load_at_most_and_nonempty_witness:
  "(0::int) < 1 \<and> length (load two_cues 0 None (Some 1)) = 1 \<and>
   int (length (load two_cues 0 None (Some 1))) \<le> 1 \<and>
   list_all (\<lambda>seg. target_text seg \<noteq> [] \<and> start_time seg < end_time seg)
     (load two_cues 0 None (Some 1))"
  using load_at_most_and_nonempty [of 1 two_cues 0 None "Some 1"]
  by (simp add: load_two_cues)

section \<open>Reconciliation in the parse stage\<close>

lemma map_of_rev_last:
  "map_of (rev xs) k =
     (if filter (\<lambda>p. fst p = k) xs = [] then None
      else Some (snd (last (filter (\<lambda>p. fst p = k) xs))))"
  by (induction xs rule: rev_induct) auto

lemma old_segments_last:
  "old_segments old (t, txt) =
     (let matches = filter (\<lambda>os. status os = ''success'' \<and> start_time os = t \<and> target_text os = txt) old
      in if matches = [] then None else Some (last matches))"
proof -
  let ?f = "\<lambda>s. ((start_time s, target_text s), s)"
  let ?succ = "filter (\<lambda>s. status s = ''success'') old"
  have f: "filter (\<lambda>p. fst p = (t, txt)) (map ?f ?succ) =
      map ?f (filter (\<lambda>os. status os = ''success'' \<and> start_time os = t \<and> target_text os = txt) old)"
    by (induction old) auto
  show ?thesis
    unfolding old_segments_def map_of_rev_last f Let_def
    by (simp add: last_map)
qed

lemma load_fresh:
  "seg \<in> set (load subs st en mx) \<Longrightarrow>
   ref_audio_path seg = None \<and> output_audio_path seg = None \<and> actual_duration seg = None \<and>
   status seg = ''pending''"
  using load_loop_extracted [of subs st en "[]" mx 0 1]
  by (auto simp: load_def list_all_iff extracted_def)

lemma step_one: "load_step one_cue 0 None 0 = Accept 1 [] [20320, 22909]"
  by (simp add: load_step_def one_cue_def Let_def strip_nihao clean_nihao chinese_nihao
      pair_with_next_def)

lemma load_one_cue: "load one_cue 0 None None = [example_segment]"
proof -
  have l: "length one_cue = 1" by (simp add: one_cue_def)
  show ?thesis
    unfolding load_def
    apply (subst load_loop.simps)
    apply (simp add: l step_one Let_def cap_reached_def)
    apply (subst load_loop.simps)
    apply (simp add: l make_segment_def one_cue_def convert_nihao example_segment_def)
    done
qed

text \<open>
  C5, as the specification states it, fails: only previous segments of status \<open>success\<close>
  enter the dictionary. The previous segment here has the key of the new one and a
  reference clip, but status \<open>pending\<close>; the new segment gets nothing of it.
\<close>

theorem parse_stage_reconciliation_counterexample:
  "map_sum id (\<lambda>w'. segments (manifest w'))
     (stage_parse_subtitles (example_tools 60) default_config False one_cue
        (example_world\<lparr>manifest := (manifest example_world)
           \<lparr>segments := [example_segment\<lparr>ref_audio_path := Some ''temp/segments/seg_0001.wav''\<rparr>]\<rparr>\<rparr>))
   = Inr [example_segment] \<and>
   start_time (example_segment\<lparr>ref_audio_path := Some ''temp/segments/seg_0001.wav''\<rparr>) =
     start_time example_segment \<and>
   target_text (example_segment\<lparr>ref_audio_path := Some ''temp/segments/seg_0001.wav''\<rparr>) =
     target_text example_segment \<and>
   ref_audio_path example_segment = None"
  by (simp add: stage_parse_subtitles_def parse_window_def load_one_cue Let_def
      old_segments_def restore_state_def example_world_def example_manifest_def
      example_tools_def example_segment_def save_manifest_def)

text \<open>
  C5, amended. When the parse stage succeeds, its segments are the newly extracted ones, in
  order, each reconciled by its key \<open>(start_time, target_text)\<close>: if no previous segment of
  status \<open>success\<close> has the key, the new segment stays as extracted, \<open>pending\<close> and without
  paths or measured duration; otherwise it takes \<open>ref_audio_path\<close>, \<open>output_audio_path\<close>,
  \<open>actual_duration\<close> and the status \<open>success\<close> of the last such previous segment.
\<close>

theorem parse_stage_reconciliation:
  assumes ok: "stage_parse_subtitles env cfg demo_mode subs w = Inr w'"
  shows
   "(let new_segments =
           (if demo_mode
            then load subs (demo_start_time cfg) (Some (demo_end_time cfg))
                   (Some (demo_max_segments cfg))
            else load subs 0 None None)
     in length (segments (manifest w')) = length new_segments \<and>
        (\<forall>k < length new_segments.
           let ns = new_segments ! k;
               rs = segments (manifest w') ! k;
               matches = filter (\<lambda>os. status os = ''success'' \<and> start_time os = start_time ns \<and>
                                      target_text os = target_text ns) (segments (manifest w))
           in if matches = []
              then rs = ns \<and> status rs = ''pending'' \<and> ref_audio_path rs = None \<and>
                   output_audio_path rs = None \<and> actual_duration rs = None
              else rs = ns\<lparr>ref_audio_path := ref_audio_path (last matches),
                          output_audio_path := output_audio_path (last matches),
                          actual_duration := actual_duration (last matches),
                          status := ''success''\<rparr>))"
proof -
  define new_segments where "new_segments =
           (if demo_mode
            then load subs (demo_start_time cfg) (Some (demo_end_time cfg))
                   (Some (demo_max_segments cfg))
            else load subs 0 None None)"
  have segs: "segments (manifest w') =
      map (restore_state (old_segments (segments (manifest w)))) new_segments"
    using ok
    by (auto simp: stage_parse_subtitles_def parse_window_def Let_def save_manifest_def
        new_segments_def split: sum.splits if_splits prod.splits)
  have fresh: "ref_audio_path seg = None \<and> output_audio_path seg = None \<and>
      actual_duration seg = None \<and> status seg = ''pending''" if "seg \<in> set new_segments" for seg
    using that load_fresh unfolding new_segments_def by (auto split: if_splits)
  have each: "let ns = new_segments ! k;
               rs = segments (manifest w') ! k;
               matches = filter (\<lambda>os. status os = ''success'' \<and> start_time os = start_time ns \<and>
                                      target_text os = target_text ns) (segments (manifest w))
           in if matches = []
              then rs = ns \<and> status rs = ''pending'' \<and> ref_audio_path rs = None \<and>
                   output_audio_path rs = None \<and> actual_duration rs = None
              else rs = ns\<lparr>ref_audio_path := ref_audio_path (last matches),
                          output_audio_path := output_audio_path (last matches),
                          actual_duration := actual_duration (last matches),
                          status := ''success''\<rparr>" if k: "k < length new_segments" for k
  proof -
    let ?ns = "new_segments ! k"
    let ?matches = "filter (\<lambda>os. status os = ''success'' \<and> start_time os = start_time ?ns \<and>
                                      target_text os = target_text ?ns) (segments (manifest w))"
    have in_set: "?ns \<in> set new_segments" using k by simp
    have st: "?matches \<noteq> [] \<Longrightarrow> status (last ?matches) = ''success''"
      using last_in_set [of ?matches] by auto
    show ?thesis
      unfolding Let_def segs
      using k fresh [OF in_set] st
      by (simp add: restore_state_def old_segments_last Let_def)
  qed
  have len: "length (segments (manifest w')) = length new_segments"
    by (simp add: segs)
  show ?thesis
    unfolding new_segments_def [symmetric] Let_def
    using len each [unfolded Let_def] by blast
qed

text \<open>A previous successful segment of the same key: the new segment takes its state over.\<close>

theorem parse_stage_reconciliation_witness:
  "\<exists>w'. stage_parse_subtitles (example_tools 60) default_config False one_cue example_world
          = Inr w' \<and>
        map status (segments (manifest w')) = [''success''] \<and>
        map ref_audio_path (segments (manifest w')) = [Some ''temp/segments/seg_0001.wav''] \<and>
        map output_audio_path (segments (manifest w')) = [Some ''temp/output/dub_0001_final.wav'']"
proof -
  obtain w' where ok:
    "stage_parse_subtitles (example_tools 60) default_config False one_cue example_world = Inr w'"
    by (simp add: stage_parse_subtitles_def parse_window_def load_one_cue Let_def example_tools_def)
  have m: "filter (\<lambda>os. status os = ''success'' \<and> start_time os = start_time example_segment \<and>
                        target_text os = target_text example_segment)
             (segments (manifest example_world)) = segments (manifest example_world)"
    by (simp add: example_world_def example_manifest_def example_segment_def)
  have s: "segments (manifest w') =
      [example_segment\<lparr>ref_audio_path := Some ''temp/segments/seg_0001.wav'',
         output_audio_path := Some ''temp/output/dub_0001_final.wav'',
         actual_duration := Some 2, status := ''success''\<rparr>]"
    using parse_stage_reconciliation [OF ok]
    by (simp add: load_one_cue Let_def m)
       (simp add: example_world_def example_manifest_def length_Suc_conv, auto)
  show ?thesis using ok s by simp
qed

section \<open>Numeral normalization\<close>

lemma group_split:
  fixes g :: nat
  shows "g mod 1000 = 100 * (g div 100 mod 10) + g mod 100"
    and "g mod 100 = 10 * (g div 10 mod 10) + g mod 10"
  using mod_mult2_eq [of g 100 10] mod_mult2_eq [of g 10 10] by simp_all

lemma group_mod: "(g::nat) mod 1000 mod 100 = g mod 100" "g mod 100 mod 10 = g mod 10"
  by (simp_all add: mod_mod_cancel)

lemma hundreds_digit: "(g::nat) mod 1000 div 100 = g div 100 mod 10"
proof -
  have "g mod 100 < 100" by simp
  then show ?thesis unfolding group_split(1) by simp
qed

lemma tens_digit: "(g::nat) mod 100 div 10 = g div 10 mod 10"
proof -
  have "g mod 10 < 10" by simp
  then show ?thesis unfolding group_split(2) by simp
qed

lemma digit_bounds:
  fixes b s u r :: nat
  shows "r < 100 \<Longrightarrow> (100 \<le> 100 * b + r) = (b \<noteq> 0)"
    and "u < 10 \<Longrightarrow> (10 \<le> 10 * s + u) = (s \<noteq> 0)"
    and "u < 10 \<Longrightarrow> s < 10 \<Longrightarrow>
         (0 < 100 * b + (10 * s + u) \<and> 100 * b + (10 * s + u) < 100) = (b = 0 \<and> (s \<noteq> 0 \<or> u \<noteq> 0))"
    and "u < 10 \<Longrightarrow> (0 < 10 * s + u \<and> 10 * s + u < 10) = (s = 0 \<and> u \<noteq> 0)"
  by auto

lemma hundreds_nonzero: "(100 \<le> (g::nat) mod 1000) = (g div 100 mod 10 \<noteq> 0)"
  unfolding group_split(1) [of g] by (rule digit_bounds(1)) simp

lemma tens_nonzero: "(10 \<le> (g::nat) mod 100) = (g div 10 mod 10 \<noteq> 0)"
  unfolding group_split(2) [of g] by (rule digit_bounds(2)) simp

lemma zero_after_thousands: "(0 < (g::nat) mod 1000 \<and> g mod 1000 < 100) =
       (g div 100 mod 10 = 0 \<and> (g div 10 mod 10 \<noteq> 0 \<or> g mod 10 \<noteq> 0))"
proof -
  have "g mod 1000 = 100 * (g div 100 mod 10) + (10 * (g div 10 mod 10) + g mod 10)"
    using group_split [of g] by simp
  then show ?thesis
    using digit_bounds(3) [of "g mod 10" "g div 10 mod 10" "g div 100 mod 10"] by simp
qed

lemma zero_after_hundreds: "(0 < (g::nat) mod 100 \<and> g mod 100 < 10) = (g div 10 mod 10 = 0 \<and> g mod 10 \<noteq> 0)"
  unfolding group_split(2) [of g] by (rule digit_bounds(4)) simp

lemma thousands_nonzero: "(1000 \<le> (g::nat)) = (g div 1000 \<noteq> 0)"
  by (simp add: div_eq_0_iff not_less)


lemma after_thousands: "(if 1000 \<le> g then g mod 1000 else g) = (g::nat) mod 1000" by simp

lemma after_hundreds: "(if g div 100 mod 10 \<noteq> 0 then g mod 100 else g mod 1000) = (g::nat) mod 100"
proof (cases "g div 100 mod 10 = 0")
  case True
  then have "g mod 1000 < 100" using hundreds_nonzero [of g] by simp
  then have "g mod 1000 mod 100 = g mod 1000" by simp
  then show ?thesis using True group_mod(1) [of g] by simp
next
  case False
  then show ?thesis by simp
qed

lemma after_tens: "(if g div 10 mod 10 \<noteq> 0 then g mod 10 else g mod 100) = (g::nat) mod 10"
proof (cases "g div 10 mod 10 = 0")
  case True
  then have "g mod 100 < 10" using tens_nonzero [of g] by simp
  then have "g mod 100 mod 10 = g mod 100" by simp
  then show ?thesis using True group_mod(2) [of g] by simp
next
  case False
  then show ?thesis by simp
qed

lemma low_part_read_group: "low_part r g = r @ read_group (r = []) g"
proof -
  define q where "q = g div 1000"
  define b where "b = g div 100 mod 10"
  define s where "s = g div 10 mod 10"
  define u where "u = g mod 10"
  define n1 where "n1 = (if g \<ge> 1000 then g mod 1000 else g)"
  define r1 where "r1 = (if g \<ge> 1000
                     then r @ [cn_digits ! (g div 1000), 21315] @
                          (if 0 < g mod 1000 \<and> g mod 1000 < 100 then [38646] else [])
                     else r)"
  define n2 where "n2 = (if n1 \<ge> 100 then n1 mod 100 else n1)"
  define r2 where "r2 = (if n1 \<ge> 100
                     then r1 @ [cn_digits ! (n1 div 100), 30334] @
                          (if 0 < n1 mod 100 \<and> n1 mod 100 < 10 then [38646] else [])
                     else r1)"
  define r3 where "r3 = (if n2 \<ge> 10
                     then (if n2 div 10 = 1 \<and> r2 = [] then r2 @ [21313]
                           else r2 @ [cn_digits ! (n2 div 10), 21313])
                     else r2)"
  define n3 where "n3 = (if n2 \<ge> 10 then n2 mod 10 else n2)"
  have lp: "low_part r g = (if n3 > 0 then r3 @ [cn_digits ! n3] else r3)"
    unfolding low_part_def Let_def n3_def r3_def r2_def n2_def r1_def n1_def by (rule refl)
  have N1: "n1 = g mod 1000" unfolding n1_def by simp
  have N2: "n2 = g mod 100" unfolding n2_def N1 hundreds_nonzero group_mod by (rule after_hundreds)
  have N3: "n3 = u" unfolding n3_def N2 tens_nonzero group_mod u_def by (rule after_tens)
  have R1: "r1 = r @ (if q \<noteq> 0
                      then [cn_digits ! q, 21315] @
                           (if b = 0 \<and> (s \<noteq> 0 \<or> u \<noteq> 0) then [38646] else [])
                      else [])"
    unfolding r1_def thousands_nonzero zero_after_thousands q_def b_def s_def u_def by simp
  have R2: "r2 = r1 @ (if b \<noteq> 0
                       then [cn_digits ! b, 30334] @ (if s = 0 \<and> u \<noteq> 0 then [38646] else [])
                       else [])"
    unfolding r2_def N1 hundreds_nonzero hundreds_digit group_mod zero_after_hundreds b_def s_def u_def by simp
  have R3: "r3 = r2 @ (if s \<noteq> 0
                       then (if s = 1 \<and> r2 = [] then [21313] else [cn_digits ! s, 21313])
                       else [])"
    unfolding r3_def N2 tens_nonzero tens_digit s_def by simp
  have rg: "read_group (r = []) g =
      (if q \<noteq> 0 then [cn_digits ! q, 21315] else []) @
      (if b \<noteq> 0 then [cn_digits ! b, 30334]
       else if q \<noteq> 0 \<and> (s \<noteq> 0 \<or> u \<noteq> 0) then [38646] else []) @
      (if s \<noteq> 0
       then (if s = 1 \<and> r = [] \<and> q = 0 \<and> b = 0 then [21313] else [cn_digits ! s, 21313])
       else if b \<noteq> 0 \<and> u \<noteq> 0 then [38646] else []) @
      (if u \<noteq> 0 then [cn_digits ! u] else [])"
    unfolding read_group_def Let_def q_def b_def s_def u_def by (rule refl)
  show ?thesis
    unfolding lp rg R3 R2 R1 N3
    by (cases "q = 0"; cases "b = 0"; cases "s = 0"; cases "u = 0"; simp)
qed

lemma read_group_zero: "read_group lead 0 = []"
  by (simp add: read_group_def)

lemma int_to_cn_group: "0 < n \<Longrightarrow> n < 10000 \<Longrightarrow> int_to_cn n = read_group True n"
  by (subst int_to_cn.simps) (simp add: Let_def low_part_read_group)

lemma int_to_cn_below_yi:
  assumes "10000 \<le> n" "n < 100000000"
  shows "int_to_cn n =
     read_group True (n div 10000) @ [19975] @
     (if n mod 10000 = 0 then []
      else (if n mod 10000 < 1000 then [38646] else []) @ read_group False (n mod 10000))"
proof -
  have hi: "0 < n div 10000" "n div 10000 < 10000"
    using assms by (simp_all add: div_greater_zero_iff less_mult_imp_div_less)
  have "int_to_cn n =
      low_part (int_to_cn (n div 10000) @ [19975] @
                (if 0 < n mod 10000 \<and> n mod 10000 < 1000 then [38646] else []))
        (n mod 10000)"
    using assms by (subst int_to_cn.simps) (simp add: Let_def)
  then show ?thesis
    by (simp add: int_to_cn_group [OF hi] low_part_read_group read_group_zero)
qed

lemma int_to_cn_agrees_below_yi: "n < 100000000 \<Longrightarrow> int_to_cn n = cn_reference n"
proof -
  assume lt: "n < 100000000"
  consider "n = 0" | "0 < n" "n < 10000" | "10000 \<le> n" by linarith
  then show ?thesis
  proof cases
    case 1
    then show ?thesis by (simp add: cn_reference_def int_to_cn.simps)
  next
    case 2
    then show ?thesis
      by (simp add: cn_reference_def int_to_cn_group place_value_reading.simps [of _ n])
  next
    case 3
    have hi: "n div 10000 < 10000"
      using lt by (simp add: less_mult_imp_div_less)
    have "place_value_reading True (n div 10000) = read_group True (n div 10000)"
      using hi by (simp add: place_value_reading.simps [of _ "n div 10000"])
    then show ?thesis
      using 3 lt
      by (simp add: cn_reference_def int_to_cn_below_yi place_value_reading.simps [of _ n])
  qed
qed

lemma read_group_values:
  "read_group True (Suc 0) = [19968]" "read_group True 10 = [21313]"
  "read_group False 10 = [19968, 21313]" "read_group True 1010 = [19968, 21315, 38646, 19968, 21313]"
  by (simp_all add: read_group_def cn_digits_def)

lemma int_to_cn_values:
  "int_to_cn (Suc 0) = [19968]" "int_to_cn 10 = [21313]"
  "int_to_cn 1010 = [19968, 21315, 38646, 19968, 21313]"
  by (simp_all add: int_to_cn_group read_group_values)

lemma int_to_cn_100001: "int_to_cn 100001 = [21313, 19975, 38646, 19968]"
  by (simp add: int_to_cn_below_yi read_group_values) (simp add: read_group_def cn_digits_def)

lemma int_to_cn_examples:
  "int_to_cn 100100000 = [19968, 20159, 38646, 21313, 19975] \<and>
   cn_reference 100100000 = [19968, 20159, 38646, 19968, 21313, 19975] \<and>
   int_to_cn 100000010 = [19968, 20159, 38646, 19968, 21313] \<and>
   int_to_cn 1010 = [19968, 21315, 38646, 19968, 21313]"
proof -
  have a: "int_to_cn 100100000 = [19968, 20159, 38646, 21313, 19975]"
    by (subst int_to_cn.simps)
       (simp add: Let_def int_to_cn_values low_part_read_group read_group_zero)
  have b: "int_to_cn 100000010 = [19968, 20159, 38646, 19968, 21313]"
    by (subst int_to_cn.simps)
       (simp add: Let_def int_to_cn_values low_part_read_group read_group_values)
  have p: "place_value_reading False 100000 = [19968, 21313, 19975]"
    by (subst place_value_reading.simps)
       (simp add: place_value_reading.simps [of _ 10] read_group_values)
  have c: "cn_reference 100100000 = [19968, 20159, 38646, 19968, 21313, 19975]"
    unfolding cn_reference_def
    by (subst place_value_reading.simps)
       (simp add: place_value_reading.simps [of _ "Suc 0"] read_group_values p)
  show ?thesis using a b c int_to_cn_values(3) by simp
qed

lemma digit_value_ascii: "digit_value 48 = Some 0" "digit_value 49 = Some 1"
  by (simp_all add: digit_value_def nd_zeros_def)

lemma is_digit_ascii: "is_digit 48" "is_digit 49"
  by (simp_all add: is_digit_def digit_value_ascii)

lemma not_digit_words:
  "\<not> is_digit 37" "\<not> is_digit 46" "\<not> is_digit 19968" "\<not> is_digit 20159" "\<not> is_digit 38646"
  "\<not> is_digit 21313" "\<not> is_digit 19975" "\<not> is_digit 30334" "\<not> is_digit 20998"
  "\<not> is_digit 20043"
  by (simp_all add: is_digit_def digit_value_def nd_zeros_def)

lemma number_at_example:
  "number_at [49, 48, 48, 49, 48, 48, 48, 48, 48, 37] = [49, 48, 48, 49, 48, 48, 48, 48, 48]"
  by (simp add: number_at_def is_digit_ascii not_digit_words Let_def)

lemma int_of_digits_example: "int_of_digits [49, 48, 48, 49, 48, 48, 48, 48, 48] = 100100000"
  by (simp add: int_of_digits_def digit_of_def digit_value_ascii)

lemma sub_percent_example:
  "sub_percent [49, 48, 48, 49, 48, 48, 48, 48, 48, 37] =
     [30334, 20998, 20043] @ int_to_cn 100100000"
  apply (subst sub_percent.simps)
  apply (simp only: Let_def number_at_example)
  apply (simp add: num_to_cn_def int_of_digits_example)
  done

lemma number_at_no_digit: "\<not> is_digit c \<Longrightarrow> number_at (c # cs) = []"
  by (simp add: number_at_def)

lemma sub_no_digit:
  assumes "\<not> is_digit c"
  shows "sub_percent (c # cs) = c # sub_percent cs"
    and "sub_year (c # cs) = c # sub_year cs"
    and "sub_long (c # cs) = c # sub_long cs"
    and "sub_number (c # cs) = c # sub_number cs"
  using assms by (simp_all add: number_at_no_digit)

lemma convert_numbers_example:
  "convert_numbers [49, 48, 48, 49, 48, 48, 48, 48, 48, 37] =
     [30334, 20998, 20043, 19968, 20159, 38646, 21313, 19975]"
proof -
  have a: "int_to_cn 100100000 = [19968, 20159, 38646, 21313, 19975]"
    using int_to_cn_examples by simp
  show ?thesis
    unfolding convert_numbers_def sub_percent_example a
    by (simp add: sub_no_digit not_digit_words del: sub_percent.simps(2) sub_year.simps(2)
        sub_long.simps(2) sub_number.simps(2))
qed

lemma cn_words_not_digit: "c \<in> set cn_words \<Longrightarrow> \<not> is_digit c"
proof -
  have "list_all (\<lambda>c. \<not> is_digit c) cn_words"
    by (simp add: cn_words_def cn_digits_def is_digit_def digit_value_def nd_zeros_def)
  then show "c \<in> set cn_words \<Longrightarrow> \<not> is_digit c" by (simp add: list_all_iff)
qed

lemma cn_digit_word: "k < 10 \<Longrightarrow> cn_digits ! k \<in> set cn_words"
  by (simp add: cn_words_def cn_digits_def nth_Cons' )

lemma read_group_words: "g < 10000 \<Longrightarrow> set (read_group lead g) \<subseteq> set cn_words"
proof -
  assume "g < 10000"
  then have "g div 1000 < 10" by simp
  then have q: "cn_digits ! (g div 1000) \<in> set cn_words" by (rule cn_digit_word)
  have b: "cn_digits ! (g div 100 mod 10) \<in> set cn_words"
    and s: "cn_digits ! (g div 10 mod 10) \<in> set cn_words"
    and u: "cn_digits ! (g mod 10) \<in> set cn_words"
    by (simp_all add: cn_digit_word)
  have w: "21313 \<in> set cn_words" "30334 \<in> set cn_words" "21315 \<in> set cn_words"
    "38646 \<in> set cn_words"
    by (simp_all add: cn_words_def cn_digits_def)
  show ?thesis
    unfolding read_group_def Let_def using q b s u w by auto
qed

lemma int_to_cn_words: "set (int_to_cn n) \<subseteq> set cn_words"
proof (induction n rule: less_induct)
  case (less n)
  have w: "19975 \<in> set cn_words" "20159 \<in> set cn_words" "38646 \<in> set cn_words"
    by (simp_all add: cn_words_def cn_digits_def)
  show ?case
  proof (cases "n = 0")
    case True
    then show ?thesis using w by (simp add: int_to_cn.simps)
  next
    case False
    define n1 where "n1 = (if n \<ge> 100000000 then n mod 100000000 else n)"
    have n1: "n1 \<le> n" by (simp add: n1_def)
    have a: "set (int_to_cn (n div 100000000)) \<subseteq> set cn_words" if "n \<ge> 100000000"
      using that by (intro less.IH) simp
    have b: "set (int_to_cn (n1 div 10000)) \<subseteq> set cn_words" if "n1 \<ge> 10000"
    proof (rule less.IH)
      have "n1 div 10000 < n1" using that by simp
      then show "n1 div 10000 < n" using n1 by simp
    qed
    have c: "set (read_group lead (if n1 \<ge> 10000 then n1 mod 10000 else n1)) \<subseteq> set cn_words"
      for lead
      by (rule read_group_words) simp
    show ?thesis
      using False a b c w
      by (subst int_to_cn.simps)
         (auto simp: Let_def low_part_read_group n1_def [symmetric] simp del: One_nat_def)
  qed
qed

lemma sub_identity:
  "list_all (\<lambda>c. \<not> is_digit c) s \<Longrightarrow>
   sub_percent s = s \<and> sub_year s = s \<and> sub_long s = s \<and> sub_number s = s"
  by (induction s) (simp_all add: sub_no_digit del: sub_percent.simps(2) sub_year.simps(2)
      sub_long.simps(2) sub_number.simps(2))

lemma int_to_cn_no_digit: "list_all (\<lambda>c. \<not> is_digit c) (int_to_cn n)"
  using int_to_cn_words [of n] cn_words_not_digit by (auto simp: list_all_iff)

lemma digit_of_less: "is_digit c \<Longrightarrow> digit_of c < 10"
  by (auto simp: is_digit_def digit_of_def digit_value_def find_Some_iff split: option.splits)

lemma digits_to_cn_no_digit:
  "list_all is_digit ds \<Longrightarrow> list_all (\<lambda>c. \<not> is_digit c) (digits_to_cn ds)"
  using cn_digit_word cn_words_not_digit digit_of_less
  by (auto simp: list_all_iff digits_to_cn_def)

lemma special_not_digit: "\<not> is_digit 37" "\<not> is_digit 46" "\<not> is_digit 24180" "\<not> is_digit 28857"
  "\<not> is_digit 30334" "\<not> is_digit 20998" "\<not> is_digit 20043"
  by (simp_all add: is_digit_def digit_value_def nd_zeros_def)

lemma takeWhile_digits:
  "list_all is_digit ds \<Longrightarrow> \<not> is_digit c \<Longrightarrow>
   takeWhile is_digit (ds @ c # cs) = ds \<and> dropWhile is_digit (ds @ c # cs) = c # cs"
  by (induction ds) simp_all

lemma takeWhile_all: "list_all is_digit ds \<Longrightarrow> takeWhile is_digit ds = ds \<and> dropWhile is_digit ds = []"
  by (induction ds) simp_all

lemma sub_percent_no_percent: "37 \<notin> set s \<Longrightarrow> sub_percent s = s"
proof (induction s)
  case Nil
  then show ?case by simp
next
  case (Cons c cs)
  have "take 1 (drop k (c # cs)) \<noteq> [37]" for k
  proof
    assume "take 1 (drop k (c # cs)) = [37]"
    then have "37 \<in> set (take 1 (drop k (c # cs)))" by simp
    then have "37 \<in> set (c # cs)" by (meson in_set_dropD in_set_takeD)
    then show False using Cons.prems by simp
  qed
  then show ?case using Cons by (simp add: Let_def)
qed

lemma sub_year_no_year: "24180 \<notin> set s \<Longrightarrow> sub_year s = s"
proof (induction s)
  case Nil
  then show ?case by simp
next
  case (Cons c cs)
  have "take 1 (drop 4 (c # cs)) \<noteq> [24180]"
  proof
    assume "take 1 (drop 4 (c # cs)) = [24180]"
    then have "24180 \<in> set (take 1 (drop 4 (c # cs)))" by simp
    then have "24180 \<in> set (c # cs)" by (meson in_set_dropD in_set_takeD)
    then show False using Cons.prems by simp
  qed
  then show ?case using Cons by simp
qed

lemma sub_long_short: "length s < 5 \<Longrightarrow> sub_long s = s"
proof (induction s)
  case Nil
  then show ?case by simp
next
  case (Cons c cs)
  have "length (takeWhile is_digit (c # cs)) \<le> length (c # cs)"
    by (rule length_takeWhile_le)
  then have "\<not> 5 \<le> length (takeWhile is_digit (c # cs))" using Cons.prems by simp
  then show ?case using Cons by (simp add: Let_def)
qed

lemma digits_no_special:
  "list_all is_digit ds \<Longrightarrow> 37 \<notin> set ds \<and> 46 \<notin> set ds \<and> 24180 \<notin> set ds"
  using special_not_digit by (auto simp: list_all_iff)

lemma number_at_digits:
  assumes "list_all is_digit ds" "ds \<noteq> []"
  shows "number_at ds = ds" and "\<not> is_digit c \<Longrightarrow> c \<noteq> 46 \<Longrightarrow> number_at (ds @ c # cs) = ds"
proof -
  have a: "takeWhile is_digit ds = ds" "dropWhile is_digit ds = []"
    using takeWhile_all [OF assms(1)] by simp_all
  show "number_at ds = ds" using assms(2) by (simp add: number_at_def Let_def a)
  assume c: "\<not> is_digit c" "c \<noteq> 46"
  have b: "takeWhile is_digit (ds @ c # cs) = ds" "dropWhile is_digit (ds @ c # cs) = c # cs"
    using takeWhile_digits [OF assms(1) c(1)] by simp_all
  show "number_at (ds @ c # cs) = ds" using assms(2) c(2) by (simp add: number_at_def Let_def b)
qed

lemma num_to_cn_digits: "list_all is_digit ds \<Longrightarrow> num_to_cn ds = int_to_cn (int_of_digits ds)"
  using digits_no_special [of ds] by (simp add: num_to_cn_def)

lemma sub_unfold:
  assumes "s \<noteq> []"
  shows "sub_percent s =
      (let g = number_at s in
       if g \<noteq> [] \<and> take 1 (drop (length g) s) = [37]
       then [30334, 20998, 20043] @ num_to_cn g @ sub_percent (drop (length g + 1) s)
       else hd s # sub_percent (tl s))"
    and "sub_year s =
      (if length (takeWhile is_digit (take 4 s)) = 4 \<and> take 1 (drop 4 s) = [24180]
       then digits_to_cn (take 4 s) @ [24180] @ sub_year (drop 5 s)
       else hd s # sub_year (tl s))"
    and "sub_long s =
      (let g = takeWhile is_digit s in
       if 5 \<le> length g then digits_to_cn g @ sub_long (drop (length g) s)
       else hd s # sub_long (tl s))"
    and "sub_number s =
      (let g = number_at s in
       if g \<noteq> [] then num_to_cn g @ sub_number (drop (length g) s)
       else hd s # sub_number (tl s))"
proof -
  obtain a list where s: "s = a # list" using assms by (cases s) auto
  show "sub_percent s =
      (let g = number_at s in
       if g \<noteq> [] \<and> take 1 (drop (length g) s) = [37]
       then [30334, 20998, 20043] @ num_to_cn g @ sub_percent (drop (length g + 1) s)
       else hd s # sub_percent (tl s))"
    unfolding s list.sel by (rule sub_percent.simps(2))
  show "sub_year s =
      (if length (takeWhile is_digit (take 4 s)) = 4 \<and> take 1 (drop 4 s) = [24180]
       then digits_to_cn (take 4 s) @ [24180] @ sub_year (drop 5 s)
       else hd s # sub_year (tl s))"
    unfolding s list.sel by (rule sub_year.simps(2))
  show "sub_long s =
      (let g = takeWhile is_digit s in
       if 5 \<le> length g then digits_to_cn g @ sub_long (drop (length g) s)
       else hd s # sub_long (tl s))"
    unfolding s list.sel by (rule sub_long.simps(2))
  show "sub_number s =
      (let g = number_at s in
       if g \<noteq> [] then num_to_cn g @ sub_number (drop (length g) s)
       else hd s # sub_number (tl s))"
    unfolding s list.sel by (rule sub_number.simps(2))
qed

lemma sub_identity_rest:
  assumes "list_all (\<lambda>c. \<not> is_digit c) w"
  shows "sub_number (sub_long (sub_year w)) = w" and "sub_number (sub_long w) = w"
    and "sub_number w = w"
proof -
  have a: "sub_year w = w" "sub_long w = w" "sub_number w = w"
    using sub_identity [OF assms] by simp_all
  show "sub_number (sub_long (sub_year w)) = w" unfolding a by (rule refl)
  show "sub_number (sub_long w) = w" unfolding a by (rule refl)
  show "sub_number w = w" by (rule a(3))
qed

lemma convert_numbers_percent:
  assumes ds: "list_all is_digit ds" "ds \<noteq> []"
  shows "convert_numbers (ds @ [37]) = [30334, 20998, 20043] @ int_to_cn (int_of_digits ds)"
proof -
  have g: "number_at (ds @ [37]) = ds"
    using number_at_digits(2) [OF ds, of 37 "[]"] special_not_digit by simp
  have d: "drop (length ds + 1) (ds @ [37]) = []" by simp
  have tk: "take 1 (drop (length ds) (ds @ [37])) = [37]" by simp
  have ne: "ds @ [37] \<noteq> []" by simp
  have sp: "sub_percent (ds @ [37]) = [30334, 20998, 20043] @ int_to_cn (int_of_digits ds)"
    unfolding sub_unfold(1) [OF ne] Let_def g d tk num_to_cn_digits [OF ds(1)]
    using ds(2) by simp
  have nd: "list_all (\<lambda>c. \<not> is_digit c) ([30334, 20998, 20043] @ int_to_cn (int_of_digits ds))"
    using int_to_cn_no_digit [of "int_of_digits ds"] special_not_digit
    by (simp add: list_all_iff)
  show ?thesis
    unfolding convert_numbers_def sp by (rule sub_identity_rest(1) [OF nd])
qed

lemma convert_numbers_year:
  assumes ds: "list_all is_digit ds" "length ds = 4"
  shows "convert_numbers (ds @ [24180]) = digits_to_cn ds @ [24180]"
proof -
  have p: "sub_percent (ds @ [24180]) = ds @ [24180]"
    using digits_no_special [OF ds(1)] by (intro sub_percent_no_percent) simp
  have tw: "takeWhile is_digit ds = ds"
    using takeWhile_all [OF ds(1)] by simp
  have tk: "take 4 (ds @ [24180]) = ds" "take 1 (drop 4 (ds @ [24180])) = [24180]"
    "drop 5 (ds @ [24180]) = []"
    using ds(2) by simp_all
  have ne: "ds @ [24180] \<noteq> []" by simp
  have y: "sub_year (ds @ [24180]) = digits_to_cn ds @ [24180]"
    unfolding sub_unfold(2) [OF ne] tk tw using ds(2) by simp
  have nd: "list_all (\<lambda>c. \<not> is_digit c) (digits_to_cn ds @ [24180])"
    using digits_to_cn_no_digit [OF ds(1)] special_not_digit by (simp add: list_all_iff)
  show ?thesis
    unfolding convert_numbers_def p y by (rule sub_identity_rest(2) [OF nd])
qed

lemma convert_numbers_long:
  assumes ds: "list_all is_digit ds" "5 \<le> length ds"
  shows "convert_numbers ds = digits_to_cn ds"
proof -
  have ne: "ds \<noteq> []" using ds(2) by auto
  have np: "sub_percent ds = ds" "sub_year ds = ds"
    using digits_no_special [OF ds(1)] by (simp_all add: sub_percent_no_percent sub_year_no_year)
  have tw: "takeWhile is_digit ds = ds" using takeWhile_all [OF ds(1)] by simp
  have sl: "sub_long ds = digits_to_cn ds"
    unfolding sub_unfold(3) [OF ne] Let_def tw using ds(2) by simp
  have nd: "list_all (\<lambda>c. \<not> is_digit c) (digits_to_cn ds)"
    by (rule digits_to_cn_no_digit [OF ds(1)])
  show ?thesis
    unfolding convert_numbers_def np sl by (rule sub_identity_rest(3) [OF nd])
qed

lemma convert_numbers_short:
  assumes ds: "list_all is_digit ds" "ds \<noteq> []" "length ds < 5"
  shows "convert_numbers ds = int_to_cn (int_of_digits ds)"
proof -
  have np: "sub_percent ds = ds" "sub_year ds = ds"
    using digits_no_special [OF ds(1)] by (simp_all add: sub_percent_no_percent sub_year_no_year)
  have na: "number_at ds = ds" by (rule number_at_digits(1) [OF ds(1,2)])
  have sn: "sub_number ds = int_to_cn (int_of_digits ds)"
    unfolding sub_unfold(4) [OF ds(2)] Let_def na num_to_cn_digits [OF ds(1)]
    using ds(2) by simp
  show ?thesis
    unfolding convert_numbers_def np sub_long_short [OF ds(3)] by (rule sn)
qed

text \<open>
  C8. The normalization order holds (lemmas \<open>convert_numbers_percent\<close>, \<open>convert_numbers_year\<close>,
  \<open>convert_numbers_long\<close>, \<open>convert_numbers_short\<close>), and \<open>_int_to_cn\<close> is the place-value
  reading for every integer below \<open>10^8\<close> (lemma \<open>int_to_cn_agrees_below_yi\<close>). Beyond, it
  is not: the group of the ten-thousands is read by a fresh call, which reads ten without
  its digit as at the start of a numeral, although the part up to \<open>10^8\<close> is read before
  it. The percentage \<open>100100000%\<close> is normalized to the reading of \<open>10^8\<close>, zero, ten,
  \<open>10^4\<close>, where the place-value reading has one-ten; the same function reads one-ten in
  100000010 and in 1010.
\<close>

theorem int_to_cn_ten_after_yi:
  "convert_numbers [49, 48, 48, 49, 48, 48, 48, 48, 48, 37] =
     [30334, 20998, 20043, 19968, 20159, 38646, 21313, 19975] \<and>
   int_to_cn 100100000 = [19968, 20159, 38646, 21313, 19975] \<and>
   cn_reference 100100000 = [19968, 20159, 38646, 19968, 21313, 19975] \<and>
   int_to_cn 100000010 = [19968, 20159, 38646, 19968, 21313] \<and>
   int_to_cn 1010 = [19968, 21315, 38646, 19968, 21313] \<and>
   int_to_cn 100001 = [21313, 19975, 38646, 19968]"
  using convert_numbers_example int_to_cn_examples int_to_cn_100001 by simp

end
